theory Spec2Isabelle
  imports Main
begin

section \<open>Text and the regular expressions of the patcher\<close>

text \<open>
  Python strings are sequences of Unicode code points.  The file contents the patcher
  handles are the decoded texts that \<^verbatim>\<open>Path.read_text\<close> returns and
  \<^verbatim>\<open>Path.write_text\<close> receives.
\<close>

type_synonym codepoint = nat
type_synonym utext = "codepoint list"

definition cps :: "string \<Rightarrow> utext" where
  "cps s = map of_char s"

text \<open>The code points that \<^verbatim>\<open>\s\<close> matches in a \<^verbatim>\<open>str\<close> pattern.\<close>

definition isspace :: "codepoint \<Rightarrow> bool" where
  "isspace c \<longleftrightarrow>
     (9 \<le> c \<and> c \<le> 13) \<or> (28 \<le> c \<and> c \<le> 32) \<or> c = 133 \<or> c = 160 \<or> c = 5760
     \<or> (8192 \<le> c \<and> c \<le> 8202) \<or> c = 8232 \<or> c = 8233 \<or> c = 8239 \<or> c = 8287
     \<or> c = 12288"

text \<open>
  The three patterns of the source use only: literal characters, the class
  \<^verbatim>\<open>\s\<close> and negated one-character sets under a greedy star or plus, an optional
  literal character, and one capturing group.
\<close>

datatype cclass = Space | NotChar codepoint

fun in_class :: "cclass \<Rightarrow> codepoint \<Rightarrow> bool" where
  "in_class Space c = isspace c"
| "in_class (NotChar d) c = (c \<noteq> d)"

datatype atom = Lit codepoint | Star cclass | Plus cclass | Opt codepoint | GroupOpen | GroupClose

text \<open>
  A capture state is the position where group 1 was opened and, once closed, its span.
  Positions count code points from the start of the match attempt.
\<close>

type_synonym capture = "nat \<times> (nat \<times> nat) option"

text \<open>
  The backtracking matcher: \<open>match_here ps s pos g\<close> tries the atoms \<open>ps\<close> on \<open>s\<close>,
  greedy alternatives first, and returns the end position and the captures of the first
  attempt that succeeds.
\<close>

fun match_here :: "atom list \<Rightarrow> utext \<Rightarrow> nat \<Rightarrow> capture \<Rightarrow> (nat \<times> capture) option" where
  "match_here [] s pos g = Some (pos, g)"
| "match_here (Lit c # ps) [] pos g = None"
| "match_here (Lit c # ps) (x # xs) pos g =
     (if x = c then match_here ps xs (Suc pos) g else None)"
| "match_here (Opt c # ps) [] pos g = match_here ps [] pos g"
| "match_here (Opt c # ps) (x # xs) pos g =
     (if x = c
      then (case match_here ps xs (Suc pos) g of
              Some r \<Rightarrow> Some r
            | None \<Rightarrow> match_here ps (x # xs) pos g)
      else match_here ps (x # xs) pos g)"
| "match_here (Star cl # ps) [] pos g = match_here ps [] pos g"
| "match_here (Star cl # ps) (x # xs) pos g =
     (if in_class cl x
      then (case match_here (Star cl # ps) xs (Suc pos) g of
              Some r \<Rightarrow> Some r
            | None \<Rightarrow> match_here ps (x # xs) pos g)
      else match_here ps (x # xs) pos g)"
| "match_here (Plus cl # ps) [] pos g = None"
| "match_here (Plus cl # ps) (x # xs) pos g =
     (if in_class cl x then match_here (Star cl # ps) xs (Suc pos) g else None)"
| "match_here (GroupOpen # ps) s pos g = match_here ps s pos (pos, snd g)"
| "match_here (GroupClose # ps) s pos g = match_here ps s pos (fst g, Some (fst g, pos))"

text \<open>A match object: the length of the match and the span of group 1 inside it.\<close>

type_synonym rmatch = "nat \<times> (nat \<times> nat) option"

definition re_match :: "atom list \<Rightarrow> utext \<Rightarrow> rmatch option" where
  "re_match ps s = map_option (\<lambda>(e, g). (e, snd g)) (match_here ps s 0 (0, None))"

text \<open>\<^verbatim>\<open>re.search\<close>: the leftmost position where the pattern matches, and the match there.\<close>

fun re_search :: "atom list \<Rightarrow> utext \<Rightarrow> (nat \<times> rmatch) option" where
  "re_search ps [] = map_option (Pair 0) (re_match ps [])"
| "re_search ps (x # xs) =
     (case re_match ps (x # xs) of
        Some m \<Rightarrow> Some (0, m)
      | None \<Rightarrow> map_option (\<lambda>(i, m). (Suc i, m)) (re_search ps xs))"

text \<open>
  A replacement template is a list of literal pieces and references to group 1
  (\<^verbatim>\<open>\1\<close>); \<open>expand\<close> instantiates it for a match on \<open>s\<close>.
\<close>

datatype piece = Literal utext | Group1

fun expand :: "piece list \<Rightarrow> utext \<Rightarrow> rmatch \<Rightarrow> utext" where
  "expand [] s m = []"
| "expand (Literal t # ts) s m = t @ expand ts s m"
| "expand (Group1 # ts) s m =
     (case snd m of
        None \<Rightarrow> expand ts s m
      | Some (b, e) \<Rightarrow> take (e - b) (drop b s) @ expand ts s m)"

text \<open>
  \<^verbatim>\<open>re.sub\<close>: every non-overlapping match, scanning from the left, is replaced by the
  expanded template; an empty match is replaced too and the scan then moves one
  character on.
\<close>

fun re_sub :: "atom list \<Rightarrow> piece list \<Rightarrow> utext \<Rightarrow> utext" where
  "re_sub ps repl [] = (case re_match ps [] of None \<Rightarrow> [] | Some m \<Rightarrow> expand repl [] m)"
| "re_sub ps repl (x # xs) =
     (case re_match ps (x # xs) of
        None \<Rightarrow> x # re_sub ps repl xs
      | Some m \<Rightarrow>
          expand repl (x # xs) m @
          (if fst m = 0 then x # re_sub ps repl xs
           else re_sub ps repl (drop (fst m - 1) xs)))"

definition lits :: "string \<Rightarrow> atom list" where
  "lits s = map (\<lambda>c. Lit (of_char c)) s"

definition ws :: "atom list" where
  "ws = [Star Space]"

text \<open>
  \<^verbatim>\<open>\s*if\s*\(\s*len\s*>\s*kMaxShortPrintLength\s*\)\s*\{[^}]*\}\s*\n?\<close>
\<close>

definition string_cc_pattern :: "atom list" where
  "string_cc_pattern =
     ws @ lits ''if'' @ ws @ lits ''('' @ ws @ lits ''len'' @ ws @ lits ''>'' @ ws @
     lits ''kMaxShortPrintLength'' @ ws @ lits '')'' @ ws @ lits ''{'' @
     [Star (NotChar (of_char CHR ''}''))] @ lits ''}'' @ ws @ [Opt 10]"

definition string_cc_replacement :: "piece list" where
  "string_cc_replacement = [Literal [10]]"

text \<open>
  \<^verbatim>\<open>\s*CHECK_EQ\s*\(\s*magic_number_\s*,\s*SerializedData::kMagicNumber\s*\)\s*;?\s*\n?\<close>
\<close>

definition deserializer_cc_pattern :: "atom list" where
  "deserializer_cc_pattern =
     ws @ lits ''CHECK_EQ'' @ ws @ lits ''('' @ ws @ lits ''magic_number_'' @ ws @
     lits '','' @ ws @ lits ''SerializedData::kMagicNumber'' @ ws @ lits '')'' @ ws @
     [Opt (of_char CHR '';'')] @ ws @ [Opt 10]"

definition deserializer_cc_replacement :: "piece list" where
  "deserializer_cc_replacement = [Literal []]"

text \<open>
  \<^verbatim>\<open>(SerializedCodeSanityCheckResult\s+SerializedCodeData::SanityCheck\s*\([^)]*\)\s*const\s*\{)\s*\<close>
  \<^verbatim>\<open>SerializedCodeSanityCheckResult\s+result\s*=\s*SanityCheckWithoutSource\s*\(\s*\)\s*;\s*\<close>
  \<^verbatim>\<open>if\s*\([^)]*\)\s*return\s+result\s*;\s*\<close>
  \<^verbatim>\<open>return\s+SanityCheckJustSource\s*\([^)]*\)\s*;\<close>

  The group is the signature with the opening brace; the rest is the body.
\<close>

definition sanity_check_signature :: "atom list" where
  "sanity_check_signature =
     lits ''SerializedCodeSanityCheckResult'' @ [Plus Space] @
     lits ''SerializedCodeData::SanityCheck'' @ ws @ lits ''('' @
     [Star (NotChar (of_char CHR '')''))] @ lits '')'' @ ws @ lits ''const'' @ ws @
     lits ''{''"

definition sanity_check_body :: "atom list" where
  "sanity_check_body =
     ws @
     lits ''SerializedCodeSanityCheckResult'' @ [Plus Space] @ lits ''result'' @ ws @
     lits ''='' @ ws @ lits ''SanityCheckWithoutSource'' @ ws @ lits ''('' @ ws @
     lits '')'' @ ws @ lits '';'' @ ws @
     lits ''if'' @ ws @ lits ''('' @ [Star (NotChar (of_char CHR '')''))] @ lits '')'' @
     ws @ lits ''return'' @ [Plus Space] @ lits ''result'' @ ws @ lits '';'' @ ws @
     lits ''return'' @ [Plus Space] @ lits ''SanityCheckJustSource'' @ ws @ lits ''('' @
     [Star (NotChar (of_char CHR '')''))] @ lits '')'' @ ws @ lits '';''"

definition code_serializer_cc_pattern :: "atom list" where
  "code_serializer_cc_pattern =
     [GroupOpen] @ sanity_check_signature @ [GroupClose] @ sanity_check_body"

text \<open>\<^verbatim>\<open>\1\n  return SerializedCodeSanityCheckResult::kSuccess;\<close>\<close>

definition code_serializer_cc_replacement :: "piece list" where
  "code_serializer_cc_replacement =
     [Group1, Literal (10 # cps ''  return SerializedCodeSanityCheckResult::kSuccess;'')]"

section \<open>Paths, the file system and exceptions\<close>

text \<open>
  A \<^verbatim>\<open>pathlib\<close> path on POSIX: its root (\<^verbatim>\<open>''\<close>, \<^verbatim>\<open>/\<close> or
  \<^verbatim>\<open>//\<close>) and its parts; empty and \<^verbatim>\<open>.\<close> components are dropped when
  a string is parsed.
\<close>

datatype path = Path utext "utext list"

fun split_slash :: "utext \<Rightarrow> utext \<Rightarrow> utext list" where
  "split_slash cur [] = [cur]"
| "split_slash cur (c # cs) =
     (if c = 47 then cur # split_slash [] cs else split_slash (cur @ [c]) cs)"

definition path_root :: "utext \<Rightarrow> utext" where
  "path_root s =
     (if take 2 s = [47, 47] \<and> take 3 s \<noteq> [47, 47, 47] then [47, 47]
      else if take 1 s = [47] then [47] else [])"

definition Path_of :: "utext \<Rightarrow> path" where
  "Path_of s = Path (path_root s) (filter (\<lambda>p. p \<noteq> [] \<and> p \<noteq> [46]) (split_slash [] s))"

text \<open>The operator \<^verbatim>\<open>/\<close> of \<^verbatim>\<open>pathlib\<close>: a rooted right operand replaces the left one.\<close>

fun joinpath :: "path \<Rightarrow> utext \<Rightarrow> path" where
  "joinpath (Path a ps) rel =
     (case Path_of rel of Path b qs \<Rightarrow> if b = [] then Path a (ps @ qs) else Path b qs)"

fun join_parts :: "utext list \<Rightarrow> utext" where
  "join_parts [] = []"
| "join_parts [p] = p"
| "join_parts (p # q # ps) = p @ [47] @ join_parts (q # ps)"

fun str_path :: "path \<Rightarrow> utext" where
  "str_path (Path a ps) = (if a = [] \<and> ps = [] then [46] else a @ join_parts ps)"

text \<open>An exception object; the text is what \<^verbatim>\<open>str(e)\<close> gives.\<close>

datatype exn = Exn utext

fun str_exn :: "exn \<Rightarrow> utext" where
  "str_exn (Exn t) = t"

datatype fs_op = Stat | Read | Write | Append

datatype entry = Missing | Dir | File utext

text \<open>
  The world the patcher runs in: what each path holds, the operations that fail on a
  path for reasons of the environment (permissions, undecodable bytes, a missing parent
  directory) with the exception they raise, and the lines printed so far.  The faults
  are fixed for a run.  The field \<open>calls\<close> is a history variable: the names of the
  rules whose function has been invoked, in order; no operation reads it.
\<close>

record world =
  entries :: "path \<Rightarrow> entry"
  faults :: "path \<Rightarrow> fs_op \<Rightarrow> exn option"
  stdout :: "utext list"
  calls :: "utext list"

text \<open>A computation either raises or returns, and leaves a world behind in both cases.\<close>

type_synonym 'a result = "(exn + 'a) \<times> world"

definition return_val :: "'a \<Rightarrow> world \<Rightarrow> 'a result" where
  "return_val v w = (Inr v, w)"

definition then_do :: "'a result \<Rightarrow> ('a \<Rightarrow> world \<Rightarrow> 'b result) \<Rightarrow> 'b result" where
  "then_do m f = (case m of (Inl e, w) \<Rightarrow> (Inl e, w) | (Inr v, w) \<Rightarrow> f v w)"

definition try_except :: "'a result \<Rightarrow> (exn \<Rightarrow> world \<Rightarrow> 'a result) \<Rightarrow> 'a result" where
  "try_except m h = (case m of (Inl e, w) \<Rightarrow> h e w | (Inr v, w) \<Rightarrow> (Inr v, w))"

definition no_such_file :: "path \<Rightarrow> exn" where
  "no_such_file p = Exn (cps ''[Errno 2] No such file or directory: '' @ [39] @ str_path p @ [39])"

definition is_a_directory :: "path \<Rightarrow> exn" where
  "is_a_directory p = Exn (cps ''[Errno 21] Is a directory: '' @ [39] @ str_path p @ [39])"

text \<open>
  \<^verbatim>\<open>Path.exists\<close> answers False for a missing path and lets other failures of
  \<^verbatim>\<open>stat\<close> through.
\<close>

definition path_exists :: "path \<Rightarrow> world \<Rightarrow> bool result" where
  "path_exists p w =
     (case faults w p Stat of
        Some e \<Rightarrow> (Inl e, w)
      | None \<Rightarrow> (Inr (entries w p \<noteq> Missing), w))"

definition read_text :: "path \<Rightarrow> world \<Rightarrow> utext result" where
  "read_text p w =
     (case faults w p Read of
        Some e \<Rightarrow> (Inl e, w)
      | None \<Rightarrow>
          (case entries w p of
             File c \<Rightarrow> (Inr c, w)
           | Dir \<Rightarrow> (Inl (is_a_directory p), w)
           | Missing \<Rightarrow> (Inl (no_such_file p), w)))"

text \<open>A failing write is a failing \<^verbatim>\<open>open\<close>: the file keeps its content.\<close>

definition write_text :: "path \<Rightarrow> utext \<Rightarrow> world \<Rightarrow> unit result" where
  "write_text p t w =
     (case faults w p Write of
        Some e \<Rightarrow> (Inl e, w)
      | None \<Rightarrow>
          (case entries w p of
             Dir \<Rightarrow> (Inl (is_a_directory p), w)
           | _ \<Rightarrow> (Inr (), w\<lparr>entries := (entries w)(p := File t)\<rparr>)))"

definition append_text :: "path \<Rightarrow> utext \<Rightarrow> world \<Rightarrow> unit result" where
  "append_text p t w =
     (case faults w p Append of
        Some e \<Rightarrow> (Inl e, w)
      | None \<Rightarrow>
          (case entries w p of
             Dir \<Rightarrow> (Inl (is_a_directory p), w)
           | Missing \<Rightarrow> (Inr (), w\<lparr>entries := (entries w)(p := File t)\<rparr>)
           | File c \<Rightarrow> (Inr (), w\<lparr>entries := (entries w)(p := File (c @ t))\<rparr>)))"

definition is_dir :: "utext \<Rightarrow> world \<Rightarrow> bool" where
  "is_dir s w \<longleftrightarrow> faults w (Path_of s) Stat = None \<and> entries w (Path_of s) = Dir"

section \<open>The patcher\<close>

record patcher =
  v8_dir :: path
  log_file :: path
  success_count :: int
  failure_count :: int

definition init :: "utext \<Rightarrow> utext \<Rightarrow> patcher" where
  "init v8 lf = \<lparr>v8_dir = Path_of v8, log_file = Path_of lf, success_count = 0, failure_count = 0\<rparr>"

text \<open>\<^verbatim>\<open>log\<close> prints the message and appends it, with a newline, to the log file.\<close>

definition log :: "patcher \<Rightarrow> utext \<Rightarrow> world \<Rightarrow> unit result" where
  "log self message w =
     append_text (log_file self) (message @ [10]) (w\<lparr>stdout := stdout w @ [message]\<rparr>)"

subsection \<open>The log lines\<close>

function digits :: "nat \<Rightarrow> utext" where
  "digits n = (if n < 10 then [48 + n] else digits (n div 10) @ [48 + n mod 10])"
  by pat_completeness auto
termination
  by (relation "measure id") auto

definition str_int :: "int \<Rightarrow> utext" where
  "str_int i = (if i < 0 then 45 # digits (nat (- i)) else digits (nat i))"

definition msg_missing :: "path \<Rightarrow> utext" where
  "msg_missing p = cps ''[SEMANTIC] '' @ [10007] @ cps '' '' @ [25991, 20214, 19981, 23384, 22312] @ cps '': '' @ str_path p"

definition msg_read_failed :: "exn \<Rightarrow> utext" where
  "msg_read_failed e = cps ''[SEMANTIC] '' @ [10007] @ cps '' '' @ [35835, 21462, 25991, 20214, 22833, 36133] @ cps '': '' @ str_exn e"

definition msg_not_found :: "utext \<Rightarrow> utext" where
  "msg_not_found name = cps ''[SEMANTIC] '' @ [9888, 65039] @ cps ''  '' @ name @ cps '': '' @ [26410, 25214, 21040, 21305, 37197, 27169, 24335, 65288, 21487, 33021, 24050, 32463, 24212, 29992, 36807, 65289]"

definition msg_unchanged :: "utext \<Rightarrow> utext" where
  "msg_unchanged name = cps ''[SEMANTIC] '' @ [9888, 65039] @ cps ''  '' @ name @ cps '': '' @ [20869, 23481, 26410, 25913, 21464]"

definition msg_applied :: "utext \<Rightarrow> utext" where
  "msg_applied name = cps ''[SEMANTIC] '' @ [9989] @ cps '' '' @ name @ cps '' '' @ [24050, 25104, 21151, 24212, 29992, 35821, 20041, 21270] @ cps '' patch''"

definition msg_write_failed :: "exn \<Rightarrow> utext" where
  "msg_write_failed e = cps ''[SEMANTIC] '' @ [10007] @ cps '' '' @ [20889, 20837, 25991, 20214, 22833, 36133] @ cps '': '' @ str_exn e"

definition msg_target_state :: "utext" where
  "msg_target_state = cps ''[SEMANTIC] '' @ [9888, 65039] @ cps ''  code-serializer.cc: '' @ [24050, 32463, 26159, 30446, 26631, 29366, 24577]"

definition msg_start :: "utext" where
  "msg_start = cps ''[SEMANTIC] '' @ [24320, 22987, 24212, 29992, 35821, 20041, 21270] @ cps '' patch...''"

definition msg_processing :: "utext \<Rightarrow> utext" where
  "msg_processing name = cps ''[SEMANTIC] '' @ [27491, 22312, 22788, 29702] @ cps '' '' @ name @ cps ''...''"

definition msg_exception :: "utext \<Rightarrow> exn \<Rightarrow> utext" where
  "msg_exception name e = cps ''[SEMANTIC] '' @ [10007] @ cps '' '' @ [22788, 29702] @ cps '' '' @ name @ cps '' '' @ [26102, 21457, 29983, 24322, 24120] @ cps '': '' @ str_exn e"

definition msg_result :: "int \<Rightarrow> int \<Rightarrow> utext" where
  "msg_result s f = cps ''[SEMANTIC] '' @ [32467, 26524] @ cps '': '' @ str_int s @ cps '' '' @ [25104, 21151] @ cps '', '' @ str_int f @ cps '' '' @ [22833, 36133]"

subsection \<open>The three rule functions\<close>

text \<open>\<^verbatim>\<open>needle in hay\<close> on strings.\<close>

fun contains :: "utext \<Rightarrow> utext \<Rightarrow> bool" where
  "contains needle [] = (needle = [])"
| "contains needle (x # xs) =
     (take (length needle) (x # xs) = needle \<or> contains needle xs)"

definition patch_string_cc :: "patcher \<Rightarrow> world \<Rightarrow> bool result" where
  "patch_string_cc self w0 =
     (let file_path = joinpath (v8_dir self) (cps ''src/objects/string.cc'') in
      then_do (path_exists file_path w0)
        (\<lambda>ex w.
           if \<not> ex
           then then_do (log self (msg_missing file_path) w) (\<lambda>_. return_val False)
           else
             (case read_text file_path w of
                (Inl e, w) \<Rightarrow>
                  then_do (log self (msg_read_failed e) w) (\<lambda>_. return_val False)
              | (Inr content, w) \<Rightarrow>
                  if re_search string_cc_pattern content = None
                  then then_do (log self (msg_not_found (cps ''string.cc'')) w)
                 (\<lambda>_. return_val True)
                  else
                    (let new_content = re_sub string_cc_pattern string_cc_replacement content in
                     if content = new_content
                     then then_do (log self (msg_unchanged (cps ''string.cc'')) w)
                            (\<lambda>_. return_val True)
                     else
                       try_except
                         (then_do (write_text file_path new_content w)
                            (\<lambda>_ w. then_do (log self (msg_applied (cps ''string.cc'')) w)
                                      (\<lambda>_. return_val True)))
                         (\<lambda>e w. then_do (log self (msg_write_failed e) w)
                                  (\<lambda>_. return_val False))))))"

definition patch_deserializer_cc :: "patcher \<Rightarrow> world \<Rightarrow> bool result" where
  "patch_deserializer_cc self w0 =
     (let file_path = joinpath (v8_dir self) (cps ''src/snapshot/deserializer.cc'') in
      then_do (path_exists file_path w0)
        (\<lambda>ex w.
           if \<not> ex
           then then_do (log self (msg_missing file_path) w) (\<lambda>_. return_val False)
           else
             (case read_text file_path w of
                (Inl e, w) \<Rightarrow>
                  then_do (log self (msg_read_failed e) w) (\<lambda>_. return_val False)
              | (Inr content, w) \<Rightarrow>
                  if re_search deserializer_cc_pattern content = None
                  then then_do (log self (msg_not_found (cps ''deserializer.cc'')) w)
                 (\<lambda>_. return_val True)
                  else
                    (let new_content = re_sub deserializer_cc_pattern deserializer_cc_replacement content in
                     if content = new_content
                     then then_do (log self (msg_unchanged (cps ''deserializer.cc'')) w)
                            (\<lambda>_. return_val True)
                     else
                       try_except
                         (then_do (write_text file_path new_content w)
                            (\<lambda>_ w. then_do (log self (msg_applied (cps ''deserializer.cc'')) w)
                                      (\<lambda>_. return_val True)))
                         (\<lambda>e w. then_do (log self (msg_write_failed e) w)
                                  (\<lambda>_. return_val False))))))"

definition patch_code_serializer_cc :: "patcher \<Rightarrow> world \<Rightarrow> bool result" where
  "patch_code_serializer_cc self w0 =
     (let file_path = joinpath (v8_dir self) (cps ''src/snapshot/code-serializer.cc'') in
      then_do (path_exists file_path w0)
        (\<lambda>ex w.
           if \<not> ex
           then then_do (log self (msg_missing file_path) w) (\<lambda>_. return_val False)
           else
             (case read_text file_path w of
                (Inl e, w) \<Rightarrow>
                  then_do (log self (msg_read_failed e) w) (\<lambda>_. return_val False)
              | (Inr content, w) \<Rightarrow>
                  if re_search code_serializer_cc_pattern content = None
                  then then_do (log self (msg_not_found (cps ''code-serializer.cc'')) w)
                 (\<lambda>_ w.
                    if contains (cps ''return SerializedCodeSanityCheckResult::kSuccess;'') content
                    then then_do (log self msg_target_state w) (\<lambda>_. return_val True)
                    else return_val True w)
                  else
                    (let new_content = re_sub code_serializer_cc_pattern code_serializer_cc_replacement content in
                     if content = new_content
                     then then_do (log self (msg_unchanged (cps ''code-serializer.cc'')) w)
                            (\<lambda>_. return_val True)
                     else
                       try_except
                         (then_do (write_text file_path new_content w)
                            (\<lambda>_ w. then_do (log self (msg_applied (cps ''code-serializer.cc'')) w)
                                      (\<lambda>_. return_val True)))
                         (\<lambda>e w. then_do (log self (msg_write_failed e) w)
                                  (\<lambda>_. return_val False))))))"

subsection \<open>The coordinator\<close>

text \<open>
  The coordinator mutates the counters of the patcher, so its computations also return
  the patcher.
\<close>

type_synonym 'a run = "(exn + 'a) \<times> patcher \<times> world"

definition patches :: "(utext \<times> (patcher \<Rightarrow> world \<Rightarrow> bool result)) list" where
  "patches =
     [(cps ''string.cc'', patch_string_cc),
      (cps ''deserializer.cc'', patch_deserializer_cc),
      (cps ''code-serializer.cc'', patch_code_serializer_cc)]"

text \<open>
  The \<^verbatim>\<open>try\<close> statement in the loop of \<^verbatim>\<open>apply_all\<close>.  The update of
  \<open>calls\<close> records the invocation \<^verbatim>\<open>patch_func()\<close>.
\<close>

definition try_patch ::
  "utext \<Rightarrow> (patcher \<Rightarrow> world \<Rightarrow> bool result) \<Rightarrow> patcher \<Rightarrow> world \<Rightarrow> unit run" where
  "try_patch name patch_func self w0 =
     (case patch_func self (w0\<lparr>calls := calls w0 @ [name]\<rparr>) of
        (Inr ok, w) \<Rightarrow>
          if ok then (Inr (), self\<lparr>success_count := success_count self + 1\<rparr>, w)
          else (Inr (), self\<lparr>failure_count := failure_count self + 1\<rparr>, w)
      | (Inl e, w) \<Rightarrow>
          (case log self (msg_exception name e) w of
             (Inl e', w) \<Rightarrow> (Inl e', self, w)
           | (Inr _, w) \<Rightarrow> (Inr (), self\<lparr>failure_count := failure_count self + 1\<rparr>, w)))"

text \<open>One iteration of the loop.\<close>

definition process_patch ::
  "utext \<Rightarrow> (patcher \<Rightarrow> world \<Rightarrow> bool result) \<Rightarrow> patcher \<Rightarrow> world \<Rightarrow> unit run" where
  "process_patch name patch_func self w0 =
     (case log self (msg_processing name) w0 of
        (Inl e, w) \<Rightarrow> (Inl e, self, w)
      | (Inr _, w) \<Rightarrow>
          (case try_patch name patch_func self w of
             (Inl e, self, w) \<Rightarrow> (Inl e, self, w)
           | (Inr _, self, w) \<Rightarrow>
               (case log self [] w of
                  (Inl e, w) \<Rightarrow> (Inl e, self, w)
                | (Inr _, w) \<Rightarrow> (Inr (), self, w))))"

fun run_patches ::
  "(utext \<times> (patcher \<Rightarrow> world \<Rightarrow> bool result)) list \<Rightarrow> patcher \<Rightarrow> world \<Rightarrow> unit run" where
  "run_patches [] self w = (Inr (), self, w)"
| "run_patches ((name, patch_func) # rest) self w =
     (case process_patch name patch_func self w of
        (Inl e, self, w) \<Rightarrow> (Inl e, self, w)
      | (Inr _, self, w) \<Rightarrow> run_patches rest self w)"

definition apply_all :: "patcher \<Rightarrow> world \<Rightarrow> bool run" where
  "apply_all self w0 =
     (case log self msg_start w0 of
        (Inl e, w) \<Rightarrow> (Inl e, self, w)
      | (Inr _, w) \<Rightarrow>
     (case log self [] w of
        (Inl e, w) \<Rightarrow> (Inl e, self, w)
      | (Inr _, w) \<Rightarrow>
     (case run_patches patches self w of
        (Inl e, self, w) \<Rightarrow> (Inl e, self, w)
      | (Inr _, self, w) \<Rightarrow>
     (case log self (msg_result (success_count self) (failure_count self)) w of
        (Inl e, w) \<Rightarrow> (Inl e, self, w)
      | (Inr _, w) \<Rightarrow>
     (case log self [] w of
        (Inl e, w) \<Rightarrow> (Inl e, self, w)
      | (Inr _, w) \<Rightarrow> (Inr (0 < success_count self), self, w))))))"

subsection \<open>The entry point\<close>

definition usage :: "utext list" where
  "usage =
     [[29992, 27861] @ cps '': semantic-patches.py <v8_dir> <log_file>'', [], [21442, 25968] @ cps '':'', cps ''  v8_dir   - V8 '' @ [28304, 30721, 30446, 24405, 30340, 32477, 23545, 36335, 24452], cps ''  log_file - '' @ [26085, 24535, 25991, 20214, 30340, 32477, 23545, 36335, 24452]]"

text \<open>
  \<open>main argv w\<close> gives the exit status of the process and the world it leaves.  An
  exception that nothing catches ends the interpreter with status 1.
\<close>

definition main :: "utext list \<Rightarrow> world \<Rightarrow> int \<times> world" where
  "main argv w =
     (if length argv < 3 then (1, w\<lparr>stdout := stdout w @ usage\<rparr>)
      else
        (let v8 = argv ! 1; lf = argv ! 2 in
         if \<not> is_dir v8 w
         then (1, w\<lparr>stdout := stdout w @ [[38169, 35823] @ cps '': V8 '' @ [30446, 24405, 19981, 23384, 22312] @ cps '': '' @ v8]\<rparr>)
         else
           (case apply_all (init v8 lf) w of
              (Inl e, self, w) \<Rightarrow> (1, w)
            | (Inr success, self, w) \<Rightarrow> (if success then 0 else 1, w))))"

section \<open>Auxiliary notions for the proofs\<close>

text \<open>
  The three rule functions are one text with five values changed.  \<open>exec_rule\<close> is
  that text with the values as parameters; each rule function is proved equal to an
  instance of it, and the properties of the three are proved once, for \<open>exec_rule\<close>.
\<close>

definition exec_rule ::
  "utext \<Rightarrow> utext \<Rightarrow> atom list \<Rightarrow> piece list \<Rightarrow> utext option \<Rightarrow> patcher \<Rightarrow> world \<Rightarrow> bool result" where
  "exec_rule rel name pat repl marker self w0 =
     (let file_path = joinpath (v8_dir self) rel in
      then_do (path_exists file_path w0)
        (\<lambda>ex w.
           if \<not> ex
           then then_do (log self (msg_missing file_path) w) (\<lambda>_. return_val False)
           else
             (case read_text file_path w of
                (Inl e, w) \<Rightarrow>
                  then_do (log self (msg_read_failed e) w) (\<lambda>_. return_val False)
              | (Inr content, w) \<Rightarrow>
                  if re_search pat content = None
                  then then_do (log self (msg_not_found name) w)
                         (\<lambda>_ w.
                            case marker of
                              None \<Rightarrow> return_val True w
                            | Some m \<Rightarrow>
                                if contains m content
                                then then_do (log self msg_target_state w) (\<lambda>_. return_val True)
                                else return_val True w)
                  else
                    (let new_content = re_sub pat repl content in
                     if content = new_content
                     then then_do (log self (msg_unchanged name) w)
                            (\<lambda>_. return_val True)
                     else
                       try_except
                         (then_do (write_text file_path new_content w)
                            (\<lambda>_ w. then_do (log self (msg_applied name) w)
                                      (\<lambda>_. return_val True)))
                         (\<lambda>e w. then_do (log self (msg_write_failed e) w)
                                  (\<lambda>_. return_val False))))))"

text \<open>
  The log sink accepts lines: appending to the log file does not fail.  No operation of
  the patcher changes this, since faults are fixed and a path that holds a file keeps
  holding one.
\<close>

definition log_ok :: "patcher \<Rightarrow> world \<Rightarrow> bool" where
  "log_ok self w \<longleftrightarrow> faults w (log_file self) Append = None \<and> entries w (log_file self) \<noteq> Dir"

text \<open>The world after \<^verbatim>\<open>log\<close> has printed and appended a line.\<close>

definition logged :: "patcher \<Rightarrow> utext \<Rightarrow> world \<Rightarrow> world" where
  "logged self m w =
     w\<lparr>stdout := stdout w @ [m],
       entries := (entries w)(log_file self :=
          File ((case entries w (log_file self) of File c \<Rightarrow> c | _ \<Rightarrow> []) @ m @ [10]))\<rparr>"

text \<open>
  The outcomes that the specification enumerates for a rule application, and the one
  that its steps assign in a given world: an exception when \<^verbatim>\<open>stat\<close> is refused,
  file-missing when the target is absent, io-error when it cannot be read, then
  pattern-not-found, no-change, io-error when it cannot be written, and applied.  The
  rule functions themselves return a truth value or raise; the theorems relate the two.
\<close>

datatype outcome = FileMissing | PatternNotFound | NoChange | Applied | IoError | Exception

definition spec_outcome :: "utext \<Rightarrow> atom list \<Rightarrow> piece list \<Rightarrow> patcher \<Rightarrow> world \<Rightarrow> outcome" where
  "spec_outcome rel pat repl self w =
     (let p = joinpath (v8_dir self) rel in
      if faults w p Stat \<noteq> None then Exception
      else
        (case entries w p of
           Missing \<Rightarrow> FileMissing
         | Dir \<Rightarrow> IoError
         | File c \<Rightarrow>
             if faults w p Read \<noteq> None then IoError
             else if re_search pat c = None then PatternNotFound
             else if re_sub pat repl c = c then NoChange
             else if faults w p Write \<noteq> None then IoError
             else Applied))"

text \<open>
  What a rule function with target \<open>p\<close> keeps when the log works: the log keeps
  working, faults and the history of calls are as before, and so is every path other
  than the log file and \<open>p\<close>.
\<close>

definition same_but :: "patcher \<Rightarrow> path \<Rightarrow> world \<Rightarrow> world \<Rightarrow> bool" where
  "same_but self p w w' \<longleftrightarrow>
     log_ok self w' \<and> faults w' = faults w \<and> calls w' = calls w \<and>
     (\<forall>q. q \<noteq> log_file self \<and> q \<noteq> p \<longrightarrow> entries w' q = entries w q)"

text \<open>The world after \<^verbatim>\<open>write_text\<close> has stored a text.\<close>

definition written :: "path \<Rightarrow> utext \<Rightarrow> world \<Rightarrow> world" where
  "written p t w = w\<lparr>entries := (entries w)(p := File t)\<rparr>"

text \<open>
  The success policy of the error taxonomy: no match, a match without effect and an
  applied rewrite count as success; a missing target, an input/output failure and an
  exception count as failure.
\<close>

definition counts_success :: "outcome \<Rightarrow> bool" where
  "counts_success oc \<longleftrightarrow> oc = PatternNotFound \<or> oc = NoChange \<or> oc = Applied"

text \<open>The counter that one iteration of the loop increments.\<close>

definition tally :: "bool \<Rightarrow> patcher \<Rightarrow> patcher" where
  "tally ok self =
     (if ok then self\<lparr>success_count := success_count self + 1\<rparr>
      else self\<lparr>failure_count := failure_count self + 1\<rparr>)"


section \<open>The language of a pattern\<close>




section \<open>The catalogue as data\<close>

text \<open>
  The three rule functions differ in five values only: the name in the log lines, the
  relative path, the pattern, the replacement and, for the third, the text whose
  presence is logged when the pattern is not found.
\<close>

record patch_rule =
  r_name :: utext
  r_rel :: utext
  r_pat :: "atom list"
  r_repl :: "piece list"
  r_marker :: "utext option"

definition string_cc_rule :: patch_rule where
  "string_cc_rule =
     \<lparr>r_name = cps ''string.cc'', r_rel = cps ''src/objects/string.cc'',
      r_pat = string_cc_pattern, r_repl = string_cc_replacement, r_marker = None\<rparr>"

definition deserializer_cc_rule :: patch_rule where
  "deserializer_cc_rule =
     \<lparr>r_name = cps ''deserializer.cc'', r_rel = cps ''src/snapshot/deserializer.cc'',
      r_pat = deserializer_cc_pattern, r_repl = deserializer_cc_replacement, r_marker = None\<rparr>"

definition code_serializer_cc_rule :: patch_rule where
  "code_serializer_cc_rule =
     \<lparr>r_name = cps ''code-serializer.cc'', r_rel = cps ''src/snapshot/code-serializer.cc'',
      r_pat = code_serializer_cc_pattern, r_repl = code_serializer_cc_replacement,
      r_marker = Some (cps ''return SerializedCodeSanityCheckResult::kSuccess;'')\<rparr>"

definition catalogue :: "patch_rule list" where
  "catalogue = [string_cc_rule, deserializer_cc_rule, code_serializer_cc_rule]"

definition exec_of :: "patch_rule \<Rightarrow> patcher \<Rightarrow> world \<Rightarrow> bool result" where
  "exec_of r = exec_rule (r_rel r) (r_name r) (r_pat r) (r_repl r) (r_marker r)"

definition entry_of :: "patch_rule \<Rightarrow> utext \<times> (patcher \<Rightarrow> world \<Rightarrow> bool result)" where
  "entry_of r = (r_name r, exec_of r)"

definition target :: "patch_rule \<Rightarrow> patcher \<Rightarrow> path" where
  "target r self = joinpath (v8_dir self) (r_rel r)"

definition outcome_of :: "patch_rule \<Rightarrow> patcher \<Rightarrow> world \<Rightarrow> outcome" where
  "outcome_of r self w = spec_outcome (r_rel r) (r_pat r) (r_repl r) self w"

definition successes :: "patch_rule list \<Rightarrow> patcher \<Rightarrow> world \<Rightarrow> nat" where
  "successes rs self w = length (filter (\<lambda>r. counts_success (outcome_of r self w)) rs)"

definition failures :: "patch_rule list \<Rightarrow> patcher \<Rightarrow> world \<Rightarrow> nat" where
  "failures rs self w = length (filter (\<lambda>r. \<not> counts_success (outcome_of r self w)) rs)"

section \<open>Example worlds\<close>

text \<open>
  A source tree at \<^verbatim>\<open>/v8\<close> and a log file at \<^verbatim>\<open>/tmp/patch.log\<close>; nothing
  fails for reasons of the environment.
\<close>

definition example_self :: patcher where
  "example_self = init (cps ''/v8'') (cps ''/tmp/patch.log'')"

definition world_of :: "(path \<Rightarrow> entry) \<Rightarrow> world" where
  "world_of es = \<lparr>entries = es, faults = (\<lambda>_ _. None), stdout = [], calls = []\<rparr>"

definition string_cc_file :: path where
  "string_cc_file = Path [47] [cps ''v8'', cps ''src'', cps ''objects'', cps ''string.cc'']"

definition deserializer_cc_file :: path where
  "deserializer_cc_file =
     Path [47] [cps ''v8'', cps ''src'', cps ''snapshot'', cps ''deserializer.cc'']"

definition code_serializer_cc_file :: path where
  "code_serializer_cc_file =
     Path [47] [cps ''v8'', cps ''src'', cps ''snapshot'', cps ''code-serializer.cc'']"

text \<open>The tree holds none of the three files.\<close>

definition empty_tree :: world where
  "empty_tree = world_of ((\<lambda>_. Missing)(Path [47] [cps ''v8''] := Dir))"

text \<open>The same tree where \<^verbatim>\<open>stat\<close> on \<^verbatim>\<open>string.cc\<close> is refused.\<close>

definition denied_tree :: world where
  "denied_tree =
     empty_tree\<lparr>faults := (\<lambda>_ _. None)(string_cc_file :=
        (\<lambda>_. None)(Stat := Some (Exn (cps ''[Errno 13] Permission denied''))))\<rparr>"

text \<open>
  A tree where \<^verbatim>\<open>string.cc\<close> holds the guard block and the other two files hold
  nothing that their rules look for.
\<close>

definition guard_text :: utext where
  "guard_text =
     cps ''  a;'' @ [10] @ cps ''  if (len > kMaxShortPrintLength) {'' @ [10] @
     cps ''    return;'' @ [10] @ cps ''  }'' @ [10] @ cps ''  b;'' @ [10]"

definition mixed_tree :: world where
  "mixed_tree =
     world_of ((\<lambda>_. Missing)
       (Path [47] [cps ''v8''] := Dir,
        string_cc_file := File guard_text,
        deserializer_cc_file := File (cps ''int x;''),
        code_serializer_cc_file := File (cps ''int y;'')))"


text \<open>
  A tree where \<^verbatim>\<open>deserializer.cc\<close> ends as the function does in V8: a preprocessor
  line with a comment, the assertion, the closing brace.
\<close>

definition debug_text :: utext where
  "debug_text =
     cps ''#endif  // DEBUG'' @ [10] @
     cps ''  CHECK_EQ(magic_number_, SerializedData::kMagicNumber);'' @ [10] @
     cps ''}'' @ [10]"

definition debug_tree :: world where
  "debug_tree =
     world_of ((\<lambda>_. Missing)
       (Path [47] [cps ''v8''] := Dir, deserializer_cc_file := File debug_text))"









section \<open>The rule functions under a working log\<close>

lemma patch_string_cc_exec:
  "patch_string_cc = exec_rule (cps ''src/objects/string.cc'') (cps ''string.cc'')
      string_cc_pattern string_cc_replacement None"
  unfolding patch_string_cc_def exec_rule_def option.case by (intro ext) (rule refl)

lemma patch_deserializer_cc_exec:
  "patch_deserializer_cc = exec_rule (cps ''src/snapshot/deserializer.cc'') (cps ''deserializer.cc'')
      deserializer_cc_pattern deserializer_cc_replacement None"
  unfolding patch_deserializer_cc_def exec_rule_def option.case by (intro ext) (rule refl)

lemma patch_code_serializer_cc_exec:
  "patch_code_serializer_cc = exec_rule (cps ''src/snapshot/code-serializer.cc'') (cps ''code-serializer.cc'')
      code_serializer_cc_pattern code_serializer_cc_replacement
      (Some (cps ''return SerializedCodeSanityCheckResult::kSuccess;''))"
  unfolding patch_code_serializer_cc_def exec_rule_def option.case by (intro ext) (rule refl)

lemma log_ok_log: "log_ok self w \<Longrightarrow> log self m w = (Inr (), logged self m w)"
  by (cases "entries w (log_file self)") (simp_all add: log_ok_def log_def append_text_def logged_def)

lemma log_ok_logged [simp]: "log_ok self w \<Longrightarrow> log_ok self (logged self m w)"
  by (cases "entries w (log_file self)") (simp_all add: log_ok_def logged_def)

lemma logged_simps [simp]:
  "faults (logged self m w) = faults w"
  "calls (logged self m w) = calls w"
  "q \<noteq> log_file self \<Longrightarrow> entries (logged self m w) q = entries w q"
  by (simp_all add: logged_def)

lemma same_but_logged: "log_ok self w \<Longrightarrow> same_but self p w (logged self m w)"
  by (simp add: same_but_def)

lemma same_but_logged2: "log_ok self w \<Longrightarrow> same_but self p w (logged self m' (logged self m w))"
  by (simp add: same_but_def)

lemma exec_rule_exception:
  assumes "faults w (joinpath (v8_dir self) rel) Stat = Some e"
  shows "exec_rule rel name pat repl marker self w = (Inl e, w)"
  using assms by (simp add: exec_rule_def then_do_def path_exists_def)

lemma exec_rule_missing:
  assumes "log_ok self w" "faults w (joinpath (v8_dir self) rel) Stat = None"
    "entries w (joinpath (v8_dir self) rel) = Missing"
  shows "exec_rule rel name pat repl marker self w =
     (Inr False, logged self (msg_missing (joinpath (v8_dir self) rel)) w)"
  using assms by (simp add: exec_rule_def then_do_def path_exists_def log_ok_log return_val_def)

lemma exec_rule_dir:
  assumes "log_ok self w" "faults w (joinpath (v8_dir self) rel) Stat = None"
    "entries w (joinpath (v8_dir self) rel) = Dir"
  shows "exec_rule rel name pat repl marker self w =
     (Inr False, logged self (msg_read_failed
        (case faults w (joinpath (v8_dir self) rel) Read of
           Some e \<Rightarrow> e | None \<Rightarrow> is_a_directory (joinpath (v8_dir self) rel))) w)"
  using assms
  by (cases "faults w (joinpath (v8_dir self) rel) Read")
     (simp_all add: exec_rule_def then_do_def path_exists_def read_text_def log_ok_log return_val_def)

lemma exec_rule_unreadable:
  assumes "log_ok self w" "faults w (joinpath (v8_dir self) rel) Stat = None"
    "entries w (joinpath (v8_dir self) rel) = File c"
    "faults w (joinpath (v8_dir self) rel) Read = Some e"
  shows "exec_rule rel name pat repl marker self w = (Inr False, logged self (msg_read_failed e) w)"
  using assms
  by (simp add: exec_rule_def then_do_def path_exists_def read_text_def log_ok_log return_val_def)

lemma exec_rule_not_found:
  assumes "log_ok self w" "faults w (joinpath (v8_dir self) rel) Stat = None"
    "entries w (joinpath (v8_dir self) rel) = File c"
    "faults w (joinpath (v8_dir self) rel) Read = None"
    "re_search pat c = None"
  shows "exec_rule rel name pat repl marker self w = (Inr True, logged self (msg_not_found name) w)
       \<or> exec_rule rel name pat repl marker self w =
           (Inr True, logged self msg_target_state (logged self (msg_not_found name) w))"
  using assms
  by (cases marker)
     (simp_all add: exec_rule_def then_do_def path_exists_def read_text_def log_ok_log return_val_def)

lemma exec_rule_unchanged:
  assumes "log_ok self w" "faults w (joinpath (v8_dir self) rel) Stat = None"
    "entries w (joinpath (v8_dir self) rel) = File c"
    "faults w (joinpath (v8_dir self) rel) Read = None"
    "re_search pat c = Some r" "re_sub pat repl c = c"
  shows "exec_rule rel name pat repl marker self w = (Inr True, logged self (msg_unchanged name) w)"
  using assms
  by (simp add: exec_rule_def then_do_def path_exists_def read_text_def log_ok_log return_val_def)

lemma exec_rule_unwritable:
  assumes "log_ok self w" "faults w (joinpath (v8_dir self) rel) Stat = None"
    "entries w (joinpath (v8_dir self) rel) = File c"
    "faults w (joinpath (v8_dir self) rel) Read = None"
    "re_search pat c = Some r" "re_sub pat repl c \<noteq> c"
    "faults w (joinpath (v8_dir self) rel) Write = Some e"
  shows "exec_rule rel name pat repl marker self w = (Inr False, logged self (msg_write_failed e) w)"
  using assms
  by (simp add: exec_rule_def then_do_def try_except_def path_exists_def read_text_def
        write_text_def log_ok_log return_val_def Let_def)

lemma log_ok_written [simp]: "log_ok self w \<Longrightarrow> log_ok self (written p t w)"
  by (simp add: log_ok_def written_def)

lemma written_simps [simp]:
  "faults (written p t w) = faults w"
  "calls (written p t w) = calls w"
  "q \<noteq> p \<Longrightarrow> entries (written p t w) q = entries w q"
  "entries (written p t w) p = File t"
  by (simp_all add: written_def)

lemma exec_rule_applied:
  assumes "log_ok self w" "faults w (joinpath (v8_dir self) rel) Stat = None"
    "entries w (joinpath (v8_dir self) rel) = File c"
    "faults w (joinpath (v8_dir self) rel) Read = None"
    "re_search pat c = Some r" "re_sub pat repl c \<noteq> c"
    "faults w (joinpath (v8_dir self) rel) Write = None"
  shows "exec_rule rel name pat repl marker self w =
    (Inr True, logged self (msg_applied name) (written (joinpath (v8_dir self) rel) (re_sub pat repl c) w))"
proof -
  have "log_ok self (written (joinpath (v8_dir self) rel) (re_sub pat repl c) w)"
    using assms(1) by simp
  then show ?thesis using assms
    by (simp add: exec_rule_def then_do_def try_except_def path_exists_def read_text_def
        write_text_def log_ok_log return_val_def Let_def written_def)
qed

section \<open>The counters\<close>


lemma try_patch_counts:
  assumes "try_patch name f self w = (Inr u, self', w')"
  shows "v8_dir self' = v8_dir self \<and> log_file self' = log_file self \<and>
       ((success_count self' = success_count self + 1 \<and> failure_count self' = failure_count self)
       \<or> (failure_count self' = failure_count self + 1 \<and> success_count self' = success_count self))"
proof -
  obtain r w1 where f: "f self (w\<lparr>calls := calls w @ [name]\<rparr>) = (r, w1)" by (cases "f self (w\<lparr>calls := calls w @ [name]\<rparr>)")
  show ?thesis
  proof (cases r)
    case (Inl e)
    obtain r2 w2 where l: "log self (msg_exception name e) w1 = (r2, w2)" by (cases "log self (msg_exception name e) w1")
    from assms f Inl l show ?thesis
      by (cases r2) (simp_all add: try_patch_def, auto)
  next
    case (Inr ok)
    from assms f Inr show ?thesis
      by (cases ok) (simp_all add: try_patch_def, auto)
  qed
qed

lemma process_patch_counts:
  assumes "process_patch name f self w = (Inr u, self', w')"
  shows "v8_dir self' = v8_dir self \<and> log_file self' = log_file self \<and>
       ((success_count self' = success_count self + 1 \<and> failure_count self' = failure_count self)
       \<or> (failure_count self' = failure_count self + 1 \<and> success_count self' = success_count self))"
proof -
  obtain r1 w1 where l1: "log self (msg_processing name) w = (r1, w1)" by (cases "log self (msg_processing name) w")
  obtain r2 s2 w2 where t: "try_patch name f self w1 = (r2, s2, w2)" by (cases "try_patch name f self w1")
  obtain r3 w3 where l3: "log s2 [] w2 = (r3, w3)" by (cases "log s2 [] w2")
  from assms l1 t l3 have "r2 = Inr () \<and> s2 = self'"
    by (cases r1; cases r2; cases r3) (simp_all add: process_patch_def)
  with t try_patch_counts[of name f self w1 "()" self' w2] show ?thesis by simp
qed

section \<open>Outcomes and the tally\<close>


lemma same_but_refl: "log_ok self w \<Longrightarrow> same_but self p w w"
  by (simp add: same_but_def)

lemma same_but_applied:
  "log_ok self w \<Longrightarrow> same_but self p w (logged self m (written p t w))"
  by (simp add: same_but_def)

lemma outcomeI:
  assumes "f = (Inr b, W)" "same_but self p w W" "oc = oc'" "b = counts_success oc'"
  shows "\<exists>w'. f = (Inr (counts_success oc), w') \<and> same_but self p w w'"
  using assms by simp

lemma exec_rule_outcome:
  assumes ok: "log_ok self w"
    and ne: "spec_outcome rel pat repl self w \<noteq> Exception"
  shows "\<exists>w'. exec_rule rel name pat repl marker self w =
           (Inr (counts_success (spec_outcome rel pat repl self w)), w') \<and>
         same_but self (joinpath (v8_dir self) rel) w w'"
proof -
  let ?p = "joinpath (v8_dir self) rel"
  from ne have st: "faults w ?p Stat = None"
    by (simp add: spec_outcome_def Let_def split: if_splits)
  show ?thesis
  proof (cases "entries w ?p")
    case Missing
    then have oc: "spec_outcome rel pat repl self w = FileMissing"
      using st by (simp add: spec_outcome_def)
    show ?thesis
      by (rule outcomeI[OF exec_rule_missing[OF ok st Missing] same_but_logged[OF ok] oc])
         (simp add: counts_success_def)
  next
    case Dir
    then have oc: "spec_outcome rel pat repl self w = IoError"
      using st by (simp add: spec_outcome_def)
    show ?thesis
      by (rule outcomeI[OF exec_rule_dir[OF ok st Dir] same_but_logged[OF ok] oc])
         (simp add: counts_success_def)
  next
    case (File c)
    show ?thesis
    proof (cases "faults w ?p Read")
      case (Some e)
      then have oc: "spec_outcome rel pat repl self w = IoError"
        using st File by (simp add: spec_outcome_def)
      show ?thesis
        by (rule outcomeI[OF exec_rule_unreadable[OF ok st File Some] same_but_logged[OF ok] oc])
           (simp add: counts_success_def)
    next
      case None
      show ?thesis
      proof (cases "re_search pat c")
        case nf: None
        then have oc: "spec_outcome rel pat repl self w = PatternNotFound"
          using st File None by (simp add: spec_outcome_def)
        from exec_rule_not_found[OF ok st File None nf, of name repl marker] show ?thesis
        proof
          assume e: "exec_rule rel name pat repl marker self w =
            (Inr True, logged self (msg_not_found name) w)"
          show ?thesis
            by (rule outcomeI[OF e same_but_logged[OF ok] oc]) (simp add: counts_success_def)
        next
          assume e: "exec_rule rel name pat repl marker self w =
            (Inr True, logged self msg_target_state (logged self (msg_not_found name) w))"
          show ?thesis
            by (rule outcomeI[OF e same_but_logged2[OF ok] oc]) (simp add: counts_success_def)
        qed
      next
        case (Some r)
        show ?thesis
        proof (cases "re_sub pat repl c = c")
          case True
          then have oc: "spec_outcome rel pat repl self w = NoChange"
            using st File None Some by (simp add: spec_outcome_def)
          show ?thesis
            by (rule outcomeI[OF exec_rule_unchanged[OF ok st File None Some True]
                  same_but_logged[OF ok] oc]) (simp add: counts_success_def)
        next
          case False
          show ?thesis
          proof (cases "faults w ?p Write")
            case wn: None
            then have oc: "spec_outcome rel pat repl self w = Applied"
              using st File None Some False by (simp add: spec_outcome_def)
            show ?thesis
              by (rule outcomeI[OF exec_rule_applied[OF ok st File None Some False wn]
                    same_but_applied[OF ok] oc]) (simp add: counts_success_def)
          next
            case we: (Some e)
            then have oc: "spec_outcome rel pat repl self w = IoError"
              using st File None Some False by (simp add: spec_outcome_def)
            show ?thesis
              by (rule outcomeI[OF exec_rule_unwritable[OF ok st File None Some False we]
                    same_but_logged[OF ok] oc]) (simp add: counts_success_def)
          qed
        qed
      qed
    qed
  qed
qed

lemma spec_outcome_exception:
  "spec_outcome rel pat repl self w = Exception \<Longrightarrow>
   \<exists>e. faults w (joinpath (v8_dir self) rel) Stat = Some e"
  by (cases "faults w (joinpath (v8_dir self) rel) Stat")
     (simp_all add: spec_outcome_def Let_def split: entry.splits if_splits)

lemma spec_outcome_cong:
  assumes f: "faults w' = faults w"
    and e: "entries w' (joinpath (v8_dir self) rel) = entries w (joinpath (v8_dir self) rel)"
  shows "spec_outcome rel pat repl self w' = spec_outcome rel pat repl self w"
  unfolding spec_outcome_def Let_def f e by (rule refl)

lemma log_ok_called [simp]: "log_ok self (w\<lparr>calls := cs\<rparr>) = log_ok self w"
  by (simp add: log_ok_def)

lemma spec_outcome_called [simp]:
  "spec_outcome rel pat repl self (w\<lparr>calls := cs\<rparr>) = spec_outcome rel pat repl self w"
  by (rule spec_outcome_cong) simp_all

lemma spec_outcome_logged:
  "joinpath (v8_dir self) rel \<noteq> log_file self \<Longrightarrow>
   spec_outcome rel pat repl self (logged self m w) = spec_outcome rel pat repl self w"
  by (rule spec_outcome_cong) simp_all

lemma try_patch_exec:
  assumes ok: "log_ok self w"
  shows "\<exists>w'. try_patch name (exec_rule rel nm pat repl marker) self w =
           (Inr (), tally (counts_success (spec_outcome rel pat repl self w)) self, w') \<and>
         log_ok self w' \<and> faults w' = faults w \<and> calls w' = calls w @ [name] \<and>
         (\<forall>q. q \<noteq> log_file self \<and> q \<noteq> joinpath (v8_dir self) rel \<longrightarrow> entries w' q = entries w q)"
proof (cases "spec_outcome rel pat repl self w = Exception")
  case True
  let ?w = "w\<lparr>calls := calls w @ [name]\<rparr>"
  from True obtain e where "faults ?w (joinpath (v8_dir self) rel) Stat = Some e"
    using spec_outcome_exception by fastforce
  from exec_rule_exception[OF this] ok True show ?thesis
    by (simp add: try_patch_def log_ok_log counts_success_def tally_def)
next
  case False
  let ?w = "w\<lparr>calls := calls w @ [name]\<rparr>"
  have ok': "log_ok self ?w" using ok by simp
  from False have ne: "spec_outcome rel pat repl self ?w \<noteq> Exception" by simp
  from exec_rule_outcome[OF ok' ne, of nm marker] obtain w' where
    e: "exec_rule rel nm pat repl marker self ?w =
           (Inr (counts_success (spec_outcome rel pat repl self w)), w')"
    and s: "same_but self (joinpath (v8_dir self) rel) ?w w'" by auto
  from e s show ?thesis
    by (simp add: try_patch_def tally_def same_but_def)
qed

lemma tally_simps [simp]:
  "v8_dir (tally b self) = v8_dir self"
  "log_file (tally b self) = log_file self"
  "log_ok (tally b self) w = log_ok self w"
  "logged (tally b self) m w = logged self m w"
  by (simp_all add: tally_def log_ok_def logged_def)

lemma process_patch_exec_gen:
  assumes ok: "log_ok self w"
  shows "\<exists>w'. process_patch name (exec_rule rel nm pat repl marker) self w =
           (Inr (), tally (counts_success (spec_outcome rel pat repl self
                      (logged self (msg_processing name) w))) self, w') \<and>
         log_ok self w' \<and> faults w' = faults w \<and> calls w' = calls w @ [name] \<and>
         (\<forall>q. q \<noteq> log_file self \<and> q \<noteq> joinpath (v8_dir self) rel \<longrightarrow> entries w' q = entries w q)"
proof -
  let ?w1 = "logged self (msg_processing name) w"
  have ok1: "log_ok self ?w1" using ok by simp
  from try_patch_exec[OF ok1, of name rel nm pat repl marker] obtain w2 where
    t: "try_patch name (exec_rule rel nm pat repl marker) self ?w1 =
           (Inr (), tally (counts_success (spec_outcome rel pat repl self ?w1)) self, w2)"
    and p: "log_ok self w2" "faults w2 = faults w" "calls w2 = calls w @ [name]"
      "\<forall>q. q \<noteq> log_file self \<and> q \<noteq> joinpath (v8_dir self) rel \<longrightarrow> entries w2 q = entries w q"
    by auto
  let ?s = "tally (counts_success (spec_outcome rel pat repl self ?w1)) self"
  have ok2: "log_ok ?s w2" using p by simp
  show ?thesis using ok t p log_ok_log[OF ok2]
    by (simp add: process_patch_def log_ok_log)
qed

lemma process_patch_exec:
  assumes ok: "log_ok self w"
    and lt: "joinpath (v8_dir self) rel \<noteq> log_file self"
  shows "\<exists>w'. process_patch name (exec_rule rel nm pat repl marker) self w =
           (Inr (), tally (counts_success (spec_outcome rel pat repl self w)) self, w') \<and>
         log_ok self w' \<and> faults w' = faults w \<and> calls w' = calls w @ [name] \<and>
         (\<forall>q. q \<noteq> log_file self \<and> q \<noteq> joinpath (v8_dir self) rel \<longrightarrow> entries w' q = entries w q)"
proof -
  have "spec_outcome rel pat repl self (logged self (msg_processing name) w) =
        spec_outcome rel pat repl self w"
    by (rule spec_outcome_logged[OF lt])
  with process_patch_exec_gen[OF ok, of name rel nm pat repl marker] show ?thesis
    by (simp only:)
qed

section \<open>The matcher and the language of a pattern\<close>







section \<open>Searching and substituting\<close>










section \<open>The catalogue, the loop and the entry point\<close>


lemma patches_catalogue: "patches = map entry_of catalogue"
  by (simp add: patches_def catalogue_def entry_of_def exec_of_def string_cc_rule_def
      deserializer_cc_rule_def code_serializer_cc_rule_def patch_string_cc_exec
      patch_deserializer_cc_exec patch_code_serializer_cc_exec)

lemma Path_of_string_cc:
  "Path_of (cps ''src/objects/string.cc'') = Path [] [cps ''src'', cps ''objects'', cps ''string.cc'']"
  by (simp add: Path_of_def path_root_def cps_def)

lemma Path_of_deserializer_cc:
  "Path_of (cps ''src/snapshot/deserializer.cc'') =
   Path [] [cps ''src'', cps ''snapshot'', cps ''deserializer.cc'']"
  by (simp add: Path_of_def path_root_def cps_def)

lemma Path_of_code_serializer_cc:
  "Path_of (cps ''src/snapshot/code-serializer.cc'') =
   Path [] [cps ''src'', cps ''snapshot'', cps ''code-serializer.cc'']"
  by (simp add: Path_of_def path_root_def cps_def)

lemma targets_distinct:
  "distinct (map (\<lambda>r. target r self) catalogue)"
  by (cases "v8_dir self")
     (simp add: catalogue_def target_def string_cc_rule_def deserializer_cc_rule_def
        code_serializer_cc_rule_def Path_of_string_cc Path_of_deserializer_cc
        Path_of_code_serializer_cc, simp add: cps_def)

lemma run_patches_counts:
  "run_patches ps self w = (Inr u, self', w') \<Longrightarrow>
   success_count self' + failure_count self' = success_count self + failure_count self + int (length ps)"
proof (induction ps arbitrary: self w)
  case Nil
  then show ?case by simp
next
  case (Cons a ps)
  obtain name f where a: "a = (name, f)" by (cases a)
  obtain r1 s1 w1 where p: "process_patch name f self w = (r1, s1, w1)"
    by (cases "process_patch name f self w")
  from Cons.prems a p have r1: "r1 = Inr ()" and r: "run_patches ps s1 w1 = (Inr u, self', w')"
    by (cases r1; simp)+
  from process_patch_counts[of name f self w "()" s1 w1] p r1 Cons.IH[OF r] show ?case by auto
qed

lemma apply_all_Inr:
  assumes "apply_all self w = (Inr b, self', w')"
  shows "b = (0 < success_count self') \<and>
         (\<exists>w1 w2. run_patches patches self w1 = (Inr (), self', w2))"
proof -
  obtain r1 w1 where l1: "log self msg_start w = (r1, w1)" by (cases "log self msg_start w")
  obtain r2 w2 where l2: "log self [] w1 = (r2, w2)" by (cases "log self [] w1")
  obtain r3 s3 w3 where l3: "run_patches patches self w2 = (r3, s3, w3)"
    by (cases "run_patches patches self w2")
  obtain r4 w4 where l4: "log s3 (msg_result (success_count s3) (failure_count s3)) w3 = (r4, w4)"
    by (cases "log s3 (msg_result (success_count s3) (failure_count s3)) w3")
  obtain r5 w5 where l5: "log s3 [] w4 = (r5, w5)" by (cases "log s3 [] w4")
  from assms l1 l2 l3 l4 l5 have "r3 = Inr () \<and> s3 = self' \<and> b = (0 < success_count s3)"
    by (cases r1; cases r2; cases r3; cases r4; cases r5) (simp_all add: apply_all_def)
  with l3 show ?thesis by blast
qed

lemma main_exit_0:
  "fst (main argv w) = 0 \<longleftrightarrow>
     (3 \<le> length argv \<and> is_dir (argv ! 1) w \<and>
      fst (apply_all (init (argv ! 1) (argv ! 2)) w) = Inr True)"
proof -
  obtain r s w' where a: "apply_all (init (argv ! 1) (argv ! 2)) w = (r, s, w')"
    by (cases "apply_all (init (argv ! 1) (argv ! 2)) w")
  show ?thesis
  proof (cases r)
    case (Inl e)
    with a show ?thesis by (simp add: main_def Let_def)
  next
    case (Inr b)
    with a show ?thesis by (cases b) (simp_all add: main_def Let_def)
  qed
qed

lemma main_exit_range: "fst (main argv w) = 0 \<or> fst (main argv w) = 1"
proof -
  obtain r s w' where a: "apply_all (init (argv ! 1) (argv ! 2)) w = (r, s, w')"
    by (cases "apply_all (init (argv ! 1) (argv ! 2)) w")
  show ?thesis
  proof (cases r)
    case (Inl e)
    with a show ?thesis by (simp add: main_def Let_def)
  next
    case (Inr b)
    with a show ?thesis by (cases b) (simp_all add: main_def Let_def)
  qed
qed

section \<open>The loop under a working log\<close>


lemma outcome_of_cong:
  assumes a: "v8_dir s' = v8_dir s" and b: "faults w' = faults w"
    and c: "entries w' (target r s) = entries w (target r s)"
  shows "outcome_of r s' w' = outcome_of r s w"
  unfolding outcome_of_def spec_outcome_def Let_def a b c[unfolded target_def] by (rule refl)

lemma process_patch_entry:
  assumes ok: "log_ok self w"
  shows "\<exists>b w'. process_patch (r_name r) (exec_of r) self w = (Inr (), tally b self, w') \<and>
         log_ok self w' \<and> faults w' = faults w \<and> calls w' = calls w @ [r_name r] \<and>
         (\<forall>q. q \<noteq> log_file self \<and> q \<noteq> target r self \<longrightarrow> entries w' q = entries w q) \<and>
         (target r self \<noteq> log_file self \<longrightarrow> b = counts_success (outcome_of r self w))"
proof (cases "target r self = log_file self")
  case True
  with process_patch_exec_gen[OF ok, of "r_name r" "r_rel r" "r_name r" "r_pat r" "r_repl r" "r_marker r"]
  show ?thesis unfolding exec_of_def target_def by blast
next
  case False
  then have lt: "joinpath (v8_dir self) (r_rel r) \<noteq> log_file self" by (simp add: target_def)
  from process_patch_exec[OF ok lt, of "r_name r" "r_name r" "r_pat r" "r_repl r" "r_marker r"]
  show ?thesis unfolding exec_of_def target_def outcome_of_def by blast
qed


lemma tally_counts:
  "success_count (tally b self) = success_count self + (if b then 1 else 0)"
  "failure_count (tally b self) = failure_count self + (if b then 0 else 1)"
  by (simp_all add: tally_def)

lemma run_patches_outcomes:
  "log_ok self w \<Longrightarrow> \<forall>r\<in>set rs. target r self \<noteq> log_file self \<Longrightarrow>
   distinct (map (\<lambda>r. target r self) rs) \<Longrightarrow>
   \<exists>self' w'. run_patches (map entry_of rs) self w = (Inr (), self', w') \<and>
     log_ok self' w' \<and> faults w' = faults w \<and>
     v8_dir self' = v8_dir self \<and> log_file self' = log_file self \<and>
     success_count self' = success_count self + int (successes rs self w) \<and>
     failure_count self' = failure_count self + int (failures rs self w) \<and>
     (\<forall>q. q \<noteq> log_file self \<and> q \<notin> (\<lambda>r. target r self) ` set rs \<longrightarrow> entries w' q = entries w q)"
proof (induction rs arbitrary: self w)
  case Nil
  then show ?case by (simp add: successes_def failures_def)
next
  case (Cons r rs)
  from Cons.prems(2) have lt: "target r self \<noteq> log_file self" by simp
  from process_patch_entry[OF Cons.prems(1), of r] lt obtain w1 where
    p: "process_patch (r_name r) (exec_of r) self w =
          (Inr (), tally (counts_success (outcome_of r self w)) self, w1)"
    and w1: "log_ok self w1" "faults w1 = faults w"
      "\<forall>q. q \<noteq> log_file self \<and> q \<noteq> target r self \<longrightarrow> entries w1 q = entries w q"
    by blast
  let ?s1 = "tally (counts_success (outcome_of r self w)) self"
  have t1: "\<And>x. target x ?s1 = target x self" by (simp add: target_def)
  from w1(1) have ok1: "log_ok ?s1 w1" by simp
  have a1: "\<forall>x\<in>set rs. target x ?s1 \<noteq> log_file ?s1" using Cons.prems(2) t1 by simp
  have a2: "distinct (map (\<lambda>x. target x ?s1) rs)" using Cons.prems(3) t1 by simp
  from Cons.IH[OF ok1 a1 a2] obtain self' w' where
    r: "run_patches (map entry_of rs) ?s1 w1 = (Inr (), self', w')"
    and w': "log_ok self' w'" "faults w' = faults w1"
      "v8_dir self' = v8_dir ?s1" "log_file self' = log_file ?s1"
      "success_count self' = success_count ?s1 + int (successes rs ?s1 w1)"
      "failure_count self' = failure_count ?s1 + int (failures rs ?s1 w1)"
      "\<forall>q. q \<noteq> log_file ?s1 \<and> q \<notin> (\<lambda>x. target x ?s1) ` set rs \<longrightarrow> entries w' q = entries w1 q"
    by blast
  have oc: "outcome_of x ?s1 w1 = outcome_of x self w" if "x \<in> set rs" for x
  proof (rule outcome_of_cong)
    show "v8_dir ?s1 = v8_dir self" by simp
    show "faults w1 = faults w" by (rule w1(2))
    from that Cons.prems(2) have n1: "target x self \<noteq> log_file self" by simp
    from that have "target x self \<in> (\<lambda>r. target r self) ` set rs" by (rule imageI)
    with Cons.prems(3) have "target x self \<noteq> target r self" by auto
    note n1 this
    with w1(3) show "entries w1 (target x self) = entries w (target x self)" by simp
  qed
  have s: "successes rs ?s1 w1 = successes rs self w"
    unfolding successes_def by (rule arg_cong[where f = length], rule filter_cong) (simp_all add: oc)
  have f: "failures rs ?s1 w1 = failures rs self w"
    unfolding failures_def by (rule arg_cong[where f = length], rule filter_cong) (simp_all add: oc)
  from p r have run: "run_patches (map entry_of (r # rs)) self w = (Inr (), self', w')"
    by (simp add: entry_of_def)
  have sc: "success_count self' = success_count self + int (successes (r # rs) self w)"
    using w'(5) s by (simp add: tally_counts successes_def)
  have fc: "failure_count self' = failure_count self + int (failures (r # rs) self w)"
    using w'(6) f by (simp add: tally_counts failures_def)
  have fr: "\<forall>q. q \<noteq> log_file self \<and> q \<notin> (\<lambda>x. target x self) ` set (r # rs) \<longrightarrow>
      entries w' q = entries w q"
    using w'(7) w1(3) t1 by simp
  from run w'(1,2,3,4) w1(2) sc fc fr show ?case by simp
qed

section \<open>The whole run under a working log\<close>


lemma successes_cong:
  assumes "v8_dir s' = v8_dir s" "faults w' = faults w"
    "\<forall>r\<in>set rs. entries w' (target r s) = entries w (target r s)"
  shows "successes rs s' w' = successes rs s w" "failures rs s' w' = failures rs s w"
proof -
  have oc: "outcome_of x s' w' = outcome_of x s w" if "x \<in> set rs" for x
    using assms that by (intro outcome_of_cong) auto
  show "successes rs s' w' = successes rs s w"
    unfolding successes_def by (rule arg_cong[where f = length], rule filter_cong) (simp_all add: oc)
  show "failures rs s' w' = failures rs s w"
    unfolding failures_def by (rule arg_cong[where f = length], rule filter_cong) (simp_all add: oc)
qed

lemma apply_all_ok:
  assumes ok: "log_ok self w"
    and lt: "\<forall>r\<in>set catalogue. target r self \<noteq> log_file self"
  shows "\<exists>self' w'. apply_all self w =
           (Inr (0 < success_count self + int (successes catalogue self w)), self', w') \<and>
         success_count self' = success_count self + int (successes catalogue self w) \<and>
         failure_count self' = failure_count self + int (failures catalogue self w) \<and>
         log_ok self' w' \<and> faults w' = faults w \<and>
         (\<forall>q. q \<noteq> log_file self \<and> q \<notin> (\<lambda>r. target r self) ` set catalogue \<longrightarrow>
              entries w' q = entries w q)"
proof -
  let ?w2 = "logged self [] (logged self msg_start w)"
  have ok2: "log_ok self ?w2" using ok by simp
  from run_patches_outcomes[OF ok2 lt targets_distinct] obtain s3 w3 where
    r: "run_patches patches self ?w2 = (Inr (), s3, w3)"
    and p: "log_ok s3 w3" "faults w3 = faults ?w2" "v8_dir s3 = v8_dir self"
      "log_file s3 = log_file self"
      "success_count s3 = success_count self + int (successes catalogue self ?w2)"
      "failure_count s3 = failure_count self + int (failures catalogue self ?w2)"
      "\<forall>q. q \<noteq> log_file self \<and> q \<notin> (\<lambda>r. target r self) ` set catalogue \<longrightarrow>
          entries w3 q = entries ?w2 q"
    unfolding patches_catalogue by blast
  have e2: "\<forall>r\<in>set catalogue. entries ?w2 (target r self) = entries w (target r self)"
    using lt by simp
  have sf: "successes catalogue self ?w2 = successes catalogue self w"
    "failures catalogue self ?w2 = failures catalogue self w"
    by (rule successes_cong[OF refl _ e2], simp)+
  let ?w5 = "logged s3 [] (logged s3 (msg_result (success_count s3) (failure_count s3)) w3)"
  have a: "apply_all self w = (Inr (0 < success_count s3), s3, ?w5)"
    using ok r p(1) by (simp add: apply_all_def log_ok_log)
  have ok5: "log_ok s3 ?w5" using p(1) by simp
  have f5: "faults ?w5 = faults w" using p(2) by simp
  have fr: "\<forall>q. q \<noteq> log_file self \<and> q \<notin> (\<lambda>r. target r self) ` set catalogue \<longrightarrow>
      entries ?w5 q = entries w q"
    using p(7) p(4) by simp
  from a ok5 f5 fr p(5,6) sf show ?thesis by simp
qed


lemma example_self_simps:
  "v8_dir example_self = Path [47] [cps ''v8'']"
  "log_file example_self = Path [47] [cps ''tmp'', cps ''patch.log'']"
  "success_count example_self = 0"
  "failure_count example_self = 0"
  by (simp_all add: example_self_def init_def Path_of_def path_root_def cps_def)

lemma example_targets:
  "target string_cc_rule example_self = string_cc_file"
  "target deserializer_cc_rule example_self = deserializer_cc_file"
  "target code_serializer_cc_rule example_self = code_serializer_cc_file"
  by (simp_all add: target_def example_self_simps string_cc_rule_def deserializer_cc_rule_def
      code_serializer_cc_rule_def Path_of_string_cc Path_of_deserializer_cc
      Path_of_code_serializer_cc string_cc_file_def deserializer_cc_file_def
      code_serializer_cc_file_def)

lemma example_files_distinct:
  "string_cc_file \<noteq> log_file example_self"
  "deserializer_cc_file \<noteq> log_file example_self"
  "code_serializer_cc_file \<noteq> log_file example_self"
  "string_cc_file \<noteq> Path [47] [cps ''v8'']"
  "deserializer_cc_file \<noteq> Path [47] [cps ''v8'']"
  "code_serializer_cc_file \<noteq> Path [47] [cps ''v8'']"
  by (simp_all add: example_self_simps string_cc_file_def deserializer_cc_file_def
      code_serializer_cc_file_def)

lemma example_log_targets:
  "\<forall>r\<in>set catalogue. target r example_self \<noteq> log_file example_self"
  by (simp add: catalogue_def example_targets example_files_distinct)

lemma log_ok_empty_tree: "log_ok example_self empty_tree"
  by (simp add: log_ok_def empty_tree_def world_of_def example_self_simps)

section \<open>The example worlds evaluated\<close>


lemma outcome_of_target:
  "outcome_of r self w =
     (if faults w (target r self) Stat \<noteq> None then Exception
      else
        (case entries w (target r self) of
           Missing \<Rightarrow> FileMissing
         | Dir \<Rightarrow> IoError
         | File c \<Rightarrow>
             if faults w (target r self) Read \<noteq> None then IoError
             else if re_search (r_pat r) c = None then PatternNotFound
             else if re_sub (r_pat r) (r_repl r) c = c then NoChange
             else if faults w (target r self) Write \<noteq> None then IoError
             else Applied))"
  unfolding outcome_of_def spec_outcome_def target_def Let_def by (rule refl)

lemma empty_tree_outcomes:
  "outcome_of string_cc_rule example_self empty_tree = FileMissing"
  "outcome_of deserializer_cc_rule example_self empty_tree = FileMissing"
  "outcome_of code_serializer_cc_rule example_self empty_tree = FileMissing"
  by (simp_all add: outcome_of_target example_targets empty_tree_def world_of_def
      example_files_distinct)

lemma empty_tree_successes: "successes catalogue example_self empty_tree = 0"
  by (simp add: successes_def catalogue_def empty_tree_outcomes counts_success_def)

lemma example_files_distinct2:
  "string_cc_file \<noteq> deserializer_cc_file" "deserializer_cc_file \<noteq> string_cc_file"
  "string_cc_file \<noteq> code_serializer_cc_file" "code_serializer_cc_file \<noteq> string_cc_file"
  "deserializer_cc_file \<noteq> code_serializer_cc_file"
  "code_serializer_cc_file \<noteq> deserializer_cc_file"
  "log_file example_self \<noteq> string_cc_file"
  "log_file example_self \<noteq> deserializer_cc_file"
  "log_file example_self \<noteq> code_serializer_cc_file"
  "Path [47] [cps ''v8''] \<noteq> string_cc_file"
  "Path [47] [cps ''v8''] \<noteq> deserializer_cc_file"
  "Path [47] [cps ''v8''] \<noteq> code_serializer_cc_file"
  "Path [47] [cps ''v8''] \<noteq> log_file example_self"
  "log_file example_self \<noteq> Path [47] [cps ''v8'']"
  by (simp_all add: example_self_simps string_cc_file_def deserializer_cc_file_def
      code_serializer_cc_file_def cps_def)

lemma denied_tree_simps:
  "log_ok example_self denied_tree"
  "outcome_of string_cc_rule example_self denied_tree = Exception"
  "outcome_of deserializer_cc_rule example_self denied_tree = FileMissing"
  "calls denied_tree = []"
  by (simp_all add: log_ok_def outcome_of_target example_targets denied_tree_def empty_tree_def
      world_of_def example_files_distinct example_files_distinct2)

lemma mixed_tree_log_ok: "log_ok example_self mixed_tree"
  by (simp add: log_ok_def mixed_tree_def world_of_def example_files_distinct2)

lemma mixed_tree_string_cc:
  "entries mixed_tree string_cc_file = File guard_text"
  "entries mixed_tree deserializer_cc_file = File (cps ''int x;'')"
  "entries mixed_tree code_serializer_cc_file = File (cps ''int y;'')"
  "faults mixed_tree = (\<lambda>_ _. None)"
  by (simp_all add: mixed_tree_def world_of_def example_files_distinct2)

lemma guard_text_search:
  "re_search string_cc_pattern guard_text = Some (4, 55, None)"
  by (simp add: guard_text_def string_cc_pattern_def cps_def lits_def ws_def re_match_def
      isspace_def)

lemma guard_text_sub:
  "re_sub string_cc_pattern string_cc_replacement guard_text = cps ''  a;'' @ [10] @ cps ''b;'' @ [10]"
  by (simp add: guard_text_def string_cc_pattern_def string_cc_replacement_def cps_def lits_def
      ws_def re_match_def isspace_def)

lemma no_match_examples:
  "re_search deserializer_cc_pattern (cps ''int x;'') = None"
  "re_search code_serializer_cc_pattern (cps ''int y;'') = None"
  by (simp_all add: deserializer_cc_pattern_def code_serializer_cc_pattern_def sanity_check_signature_def
      sanity_check_body_def cps_def lits_def
      ws_def re_match_def isspace_def)

lemma rule_fields:
  "r_pat string_cc_rule = string_cc_pattern" "r_repl string_cc_rule = string_cc_replacement"
  "r_pat deserializer_cc_rule = deserializer_cc_pattern"
  "r_repl deserializer_cc_rule = deserializer_cc_replacement"
  "r_pat code_serializer_cc_rule = code_serializer_cc_pattern"
  "r_repl code_serializer_cc_rule = code_serializer_cc_replacement"
  "r_name string_cc_rule = cps ''string.cc''"
  "r_name deserializer_cc_rule = cps ''deserializer.cc''"
  "r_name code_serializer_cc_rule = cps ''code-serializer.cc''"
  "r_rel string_cc_rule = cps ''src/objects/string.cc''"
  "r_rel deserializer_cc_rule = cps ''src/snapshot/deserializer.cc''"
  "r_rel code_serializer_cc_rule = cps ''src/snapshot/code-serializer.cc''"
  "r_marker string_cc_rule = None" "r_marker deserializer_cc_rule = None"
  "r_marker code_serializer_cc_rule =
     Some (cps ''return SerializedCodeSanityCheckResult::kSuccess;'')"
  by (simp_all add: string_cc_rule_def deserializer_cc_rule_def code_serializer_cc_rule_def)

lemma mixed_tree_outcomes:
  "outcome_of string_cc_rule example_self mixed_tree = Applied"
  "outcome_of deserializer_cc_rule example_self mixed_tree = PatternNotFound"
  "outcome_of code_serializer_cc_rule example_self mixed_tree = PatternNotFound"
proof -
  have "guard_text \<noteq> cps ''  a;'' @ [10] @ cps ''b;'' @ [10]"
    by (simp add: guard_text_def cps_def)
  then show "outcome_of string_cc_rule example_self mixed_tree = Applied"
    by (simp add: outcome_of_target example_targets mixed_tree_string_cc rule_fields
        guard_text_search guard_text_sub)
  show "outcome_of deserializer_cc_rule example_self mixed_tree = PatternNotFound"
    by (simp add: outcome_of_target example_targets mixed_tree_string_cc
        rule_fields no_match_examples)
  show "outcome_of code_serializer_cc_rule example_self mixed_tree = PatternNotFound"
    by (simp add: outcome_of_target example_targets mixed_tree_string_cc
        rule_fields no_match_examples)
qed

lemma successes_pos:
  "0 < successes rs self w \<longleftrightarrow> (\<exists>r\<in>set rs. counts_success (outcome_of r self w))"
  by (simp add: successes_def filter_empty_conv)

lemma is_dir_mixed_tree: "is_dir (cps ''/v8'') mixed_tree"
proof -
  have "Path_of (cps ''/v8'') = Path [47] [cps ''v8'']"
    using example_self_simps(1) by (simp add: example_self_def init_def)
  then show ?thesis
    by (simp add: is_dir_def mixed_tree_def world_of_def example_files_distinct2)
qed

lemma patches_length: "length patches = 3" "length catalogue = 3"
  by (simp_all add: patches_def catalogue_def)

lemma patches_nth:
  "i < 3 \<Longrightarrow> patches ! i = (r_name (catalogue ! i), exec_of (catalogue ! i))"
  unfolding patches_catalogue by (simp add: patches_length entry_of_def)

lemma catalogue_nth:
  "catalogue ! 0 = string_cc_rule" "catalogue ! 1 = deserializer_cc_rule"
  "catalogue ! 2 = code_serializer_cc_rule" "catalogue ! Suc 0 = deserializer_cc_rule"
  by (simp_all add: catalogue_def)

lemma patches_funs:
  "snd (patches ! 0) = patch_string_cc" "snd (patches ! 1) = patch_deserializer_cc"
  "snd (patches ! 2) = patch_code_serializer_cc"
  by (simp_all add: patches_def)

lemma exec_of_result:
  assumes ok: "log_ok self w"
  shows "(outcome_of r self w = Exception \<longrightarrow> (\<exists>e. exec_of r self w = (Inl e, w))) \<and>
         (outcome_of r self w \<noteq> Exception \<longrightarrow>
            (\<exists>w'. exec_of r self w = (Inr (counts_success (outcome_of r self w)), w')))"
proof (intro conjI impI)
  assume "outcome_of r self w = Exception"
  then obtain e where "faults w (joinpath (v8_dir self) (r_rel r)) Stat = Some e"
    unfolding outcome_of_def using spec_outcome_exception by blast
  from exec_rule_exception[OF this] show "\<exists>e. exec_of r self w = (Inl e, w)"
    unfolding exec_of_def by blast
next
  assume "outcome_of r self w \<noteq> Exception"
  then have "spec_outcome (r_rel r) (r_pat r) (r_repl r) self w \<noteq> Exception"
    by (simp add: outcome_of_def)
  from exec_rule_outcome[OF ok this, of "r_name r" "r_marker r"]
  show "\<exists>w'. exec_of r self w = (Inr (counts_success (outcome_of r self w)), w')"
    unfolding exec_of_def outcome_of_def by blast
qed

section \<open>What a rule function leaves untouched\<close>














lemma outcome_applied_facts:
  assumes "outcome_of r self w = Applied"
  shows "faults w (target r self) Stat = None \<and> faults w (target r self) Read = None \<and>
         faults w (target r self) Write = None \<and>
         (\<exists>c m. entries w (target r self) = File c \<and> re_search (r_pat r) c = Some m \<and>
                re_sub (r_pat r) (r_repl r) c \<noteq> c)"
proof (cases "entries w (target r self)")
  case Missing
  with assms show ?thesis by (simp add: outcome_of_target split: if_splits)
next
  case Dir
  with assms show ?thesis by (simp add: outcome_of_target split: if_splits)
next
  case (File c)
  with assms show ?thesis
    by (cases "re_search (r_pat r) c") (auto simp add: outcome_of_target split: if_splits)
qed

lemma exec_of_applied:
  assumes ok: "log_ok self w" and ap: "outcome_of r self w = Applied"
    and lt: "target r self \<noteq> log_file self" and fc: "entries w (target r self) = File c"
  shows "fst (exec_of r self w) = Inr True \<and>
         entries (snd (exec_of r self w)) (target r self) = File (re_sub (r_pat r) (r_repl r) c) \<and>
         log_ok self (snd (exec_of r self w)) \<and> faults (snd (exec_of r self w)) = faults w"
proof -
  from outcome_applied_facts[OF ap] fc obtain m where
    f: "faults w (joinpath (v8_dir self) (r_rel r)) Stat = None"
       "faults w (joinpath (v8_dir self) (r_rel r)) Read = None"
       "faults w (joinpath (v8_dir self) (r_rel r)) Write = None"
       "entries w (joinpath (v8_dir self) (r_rel r)) = File c"
       "re_search (r_pat r) c = Some m" "re_sub (r_pat r) (r_repl r) c \<noteq> c"
    unfolding target_def by auto
  from exec_rule_applied[OF ok f(1) f(4) f(2) f(5) f(6) f(3), of "r_name r" "r_marker r"] ok lt
  show ?thesis
    unfolding exec_of_def target_def by simp
qed

lemma debug_tree_facts:
  "log_ok example_self debug_tree"
  "entries debug_tree deserializer_cc_file = File debug_text"
  "faults debug_tree = (\<lambda>_ _. None)"
  by (simp_all add: log_ok_def debug_tree_def world_of_def example_files_distinct2)

lemma debug_text_sub:
  "re_sub deserializer_cc_pattern deserializer_cc_replacement debug_text =
     cps ''#endif  // DEBUG}'' @ [10]"
  by (simp add: debug_text_def deserializer_cc_pattern_def deserializer_cc_replacement_def
      cps_def lits_def ws_def re_match_def isspace_def)

lemma debug_text_search:
  "re_search deserializer_cc_pattern debug_text \<noteq> None"
  by (simp add: debug_text_def deserializer_cc_pattern_def cps_def lits_def ws_def re_match_def
      isspace_def)

lemma debug_tree_outcome:
  "outcome_of deserializer_cc_rule example_self debug_tree = Applied"
proof -
  have "debug_text \<noteq> cps ''#endif  // DEBUG}'' @ [10]" by (simp add: debug_text_def cps_def)
  with debug_text_search show ?thesis
    by (simp add: outcome_of_target example_targets debug_tree_facts rule_fields debug_text_sub)
qed












section \<open>The capture of the third pattern\<close>











section \<open>The counters of the coordinator\<close>

text \<open>
  C10.  Both counters start at 0; every iteration of the loop that completes adds one to
  exactly one of them and leaves the other; and when \<^verbatim>\<open>apply_all\<close> completes on a
  fresh patcher the two counters add up to 3, the number of catalogue entries.
\<close>

theorem counter_invariant:
  "success_count (init v lf) = 0 \<and> failure_count (init v lf) = 0 \<and>
   (\<forall>name f self w u self' w'.
      process_patch name f self w = (Inr u, self', w') \<longrightarrow>
        (success_count self' = success_count self + 1 \<and> failure_count self' = failure_count self)
        \<or> (failure_count self' = failure_count self + 1 \<and> success_count self' = success_count self)) \<and>
   (\<forall>w b self' w'.
      apply_all (init v lf) w = (Inr b, self', w') \<longrightarrow>
        success_count self' + failure_count self' = 3 \<and> length patches = 3)"
proof (intro conjI allI impI)
  show "success_count (init v lf) = 0" "failure_count (init v lf) = 0"
    by (simp_all add: init_def)
next
  fix name f self w u self' w'
  assume "process_patch name f self w = (Inr u, self', w')"
  from process_patch_counts[OF this]
  show "(success_count self' = success_count self + 1 \<and> failure_count self' = failure_count self)
        \<or> (failure_count self' = failure_count self + 1 \<and> success_count self' = success_count self)"
    by blast
next
  fix w b self' w'
  assume a: "apply_all (init v lf) w = (Inr b, self', w')"
  from apply_all_Inr[OF a] obtain w1 w2 where
    "run_patches patches (init v lf) w1 = (Inr (), self', w2)" by blast
  from run_patches_counts[OF this]
  show "success_count self' + failure_count self' = 3"
    by (simp add: init_def patches_def)
next
  show "length patches = 3" by (simp add: patches_def)
qed

theorem counter_invariant_witness:
  "fst (apply_all example_self empty_tree) = Inr False \<and>
   success_count (fst (snd (apply_all example_self empty_tree))) +
   failure_count (fst (snd (apply_all example_self empty_tree))) = 3"
proof -
  from apply_all_ok[OF log_ok_empty_tree example_log_targets] obtain s' w' where
    a: "apply_all example_self empty_tree = (Inr False, s', w')"
    by (auto simp add: empty_tree_successes example_self_simps)
  from counter_invariant[of "cps ''/v8''" "cps ''/tmp/patch.log''"] a
  have "success_count s' + failure_count s' = 3"
    unfolding example_self_def by blast
  with a show ?thesis by simp
qed

section \<open>No rule is skipped\<close>



section \<open>Overall success and the exit status\<close>

text \<open>
  C1.  Whenever \<^verbatim>\<open>apply_all\<close> returns, its result is \<open>success_count > 0\<close>; the exit
  status of the process is 0 exactly when \<^verbatim>\<open>apply_all\<close> returned True and 1
  otherwise; and on a fresh patcher whose log file is none of the targets, it returns
  True exactly when at least one rule of the catalogue has an outcome that counts as
  success.  The run with outcomes applied, pattern-not-found, pattern-not-found is the
  instance evaluated after the theorem.
\<close>

theorem overall_success:
  "(\<forall>self w b self' w'.
      apply_all self w = (Inr b, self', w') \<longrightarrow> b = (0 < success_count self')) \<and>
   (\<forall>argv w.
      fst (main argv w) =
        (if 3 \<le> length argv \<and> is_dir (argv ! 1) w \<and>
            fst (apply_all (init (argv ! 1) (argv ! 2)) w) = Inr True
         then 0 else 1)) \<and>
   (\<forall>v lf w.
      log_ok (init v lf) w \<and> (\<forall>r\<in>set catalogue. target r (init v lf) \<noteq> log_file (init v lf)) \<longrightarrow>
      fst (apply_all (init v lf) w) =
        Inr (\<exists>r\<in>set catalogue. counts_success (outcome_of r (init v lf) w)))"
proof (intro conjI allI impI)
  fix self w b self' w'
  assume "apply_all self w = (Inr b, self', w')"
  from apply_all_Inr[OF this] show "b = (0 < success_count self')" by blast
next
  fix argv w
  from main_exit_0[of argv w] main_exit_range[of argv w]
  show "fst (main argv w) =
        (if 3 \<le> length argv \<and> is_dir (argv ! 1) w \<and>
            fst (apply_all (init (argv ! 1) (argv ! 2)) w) = Inr True
         then 0 else 1)"
    by (cases "fst (main argv w) = 0") simp_all
next
  fix v lf w
  assume a: "log_ok (init v lf) w \<and>
    (\<forall>r\<in>set catalogue. target r (init v lf) \<noteq> log_file (init v lf))"
  from apply_all_ok[of "init v lf" w] a obtain s' w' where
    "apply_all (init v lf) w =
       (Inr (0 < success_count (init v lf) + int (successes catalogue (init v lf) w)), s', w')"
    by blast
  moreover have "success_count (init v lf) = 0" by (simp add: init_def)
  ultimately show "fst (apply_all (init v lf) w) =
        Inr (\<exists>r\<in>set catalogue. counts_success (outcome_of r (init v lf) w))"
    using successes_pos[of catalogue "init v lf" w] by simp
qed

theorem overall_success_witness:
  "outcome_of string_cc_rule example_self mixed_tree = Applied \<and>
   outcome_of deserializer_cc_rule example_self mixed_tree = PatternNotFound \<and>
   outcome_of code_serializer_cc_rule example_self mixed_tree = PatternNotFound \<and>
   fst (apply_all example_self mixed_tree) = Inr True \<and>
   fst (main [cps ''semantic-patches.py'', cps ''/v8'', cps ''/tmp/patch.log''] mixed_tree) = 0"
proof -
  have a: "fst (apply_all example_self mixed_tree) = Inr True"
    using overall_success mixed_tree_log_ok example_log_targets
    unfolding example_self_def
    by (simp add: catalogue_def mixed_tree_outcomes[unfolded example_self_def]
        counts_success_def)
  have "fst (main [cps ''semantic-patches.py'', cps ''/v8'', cps ''/tmp/patch.log''] mixed_tree) = 0"
    using overall_success a is_dir_mixed_tree unfolding example_self_def by simp
  with a mixed_tree_outcomes show ?thesis by simp
qed

section \<open>How outcomes are counted\<close>

text \<open>
  C2.  The tally of the coordinator, for each entry of the catalogue: one iteration of
  the loop always completes, whatever the rule does, and it adds one to
  \<open>failure_count\<close> when the target is missing, when reading or writing fails and
  when the rule raises, and one to \<open>success_count\<close> when the pattern is not found,
  when the rewrite leaves the content as it was and when the rewrite is written.  The
  outcome is that of the rule in the world where the iteration starts; the log sink is
  taken to accept lines and the log file is not the target of the rule.
\<close>

theorem tally_classification:
  assumes "log_ok self w" and "i < length patches"
    and "target (catalogue ! i) self \<noteq> log_file self"
  shows "\<exists>w'. process_patch (fst (patches ! i)) (snd (patches ! i)) self w =
           (Inr (),
            (if outcome_of (catalogue ! i) self w \<in> {PatternNotFound, NoChange, Applied}
             then self\<lparr>success_count := success_count self + 1\<rparr>
             else self\<lparr>failure_count := failure_count self + 1\<rparr>), w')"
proof -
  from assms(2) have i: "i < 3" by (simp add: patches_length)
  from process_patch_entry[OF assms(1), of "catalogue ! i"] assms(3) obtain w' where
    "process_patch (r_name (catalogue ! i)) (exec_of (catalogue ! i)) self w =
       (Inr (), tally (counts_success (outcome_of (catalogue ! i) self w)) self, w')"
    by blast
  then show ?thesis
    by (auto simp add: patches_nth[OF i] tally_def counts_success_def)
qed

theorem tally_classification_witness:
  "outcome_of (catalogue ! 0) example_self denied_tree = Exception \<and>
   fst (process_patch (fst (patches ! 0)) (snd (patches ! 0)) example_self denied_tree) = Inr () \<and>
   failure_count (fst (snd (process_patch (fst (patches ! 0)) (snd (patches ! 0))
      example_self denied_tree))) = 1 \<and>
   outcome_of (catalogue ! 1) example_self mixed_tree = PatternNotFound \<and>
   success_count (fst (snd (process_patch (fst (patches ! 1)) (snd (patches ! 1))
      example_self mixed_tree))) = 1"
proof -
  have t0: "target (catalogue ! 0) example_self \<noteq> log_file example_self"
    and t1: "target (catalogue ! 1) example_self \<noteq> log_file example_self"
    using example_log_targets by (simp_all add: catalogue_def)
  have l0: "(0::nat) < length patches" and l1: "(1::nat) < length patches"
    by (simp_all add: patches_length)
  from tally_classification[OF denied_tree_simps(1) l0 t0]
  have a: "fst (process_patch (fst (patches ! 0)) (snd (patches ! 0)) example_self denied_tree) = Inr ()
      \<and> failure_count (fst (snd (process_patch (fst (patches ! 0)) (snd (patches ! 0))
      example_self denied_tree))) = 1"
    by (auto simp add: catalogue_nth denied_tree_simps example_self_simps)
  from tally_classification[OF mixed_tree_log_ok l1 t1]
  have b: "success_count (fst (snd (process_patch (fst (patches ! 1)) (snd (patches ! 1))
      example_self mixed_tree))) = 1"
    by (auto simp add: catalogue_nth mixed_tree_outcomes example_self_simps)
  from a b show ?thesis by (simp add: catalogue_nth denied_tree_simps mixed_tree_outcomes)
qed

text \<open>
  C3, as the code has it.  The result of a rule function is a failure (False) exactly
  for a missing target and for an input/output failure, and an exception for a refused
  \<^verbatim>\<open>stat\<close>; pattern-not-found, no-change and applied give True.  A missing target
  is not a success.
\<close>

theorem rule_result:
  assumes "log_ok self w" and "i < length patches"
  shows "(outcome_of (catalogue ! i) self w = Exception \<longrightarrow>
            (\<exists>e. fst (snd (patches ! i) self w) = Inl e)) \<and>
         (outcome_of (catalogue ! i) self w \<in> {FileMissing, IoError} \<longrightarrow>
            fst (snd (patches ! i) self w) = Inr False) \<and>
         (outcome_of (catalogue ! i) self w \<in> {PatternNotFound, NoChange, Applied} \<longrightarrow>
            fst (snd (patches ! i) self w) = Inr True)"
proof -
  from assms(2) have i: "i < 3" by (simp add: patches_length)
  from exec_of_result[OF assms(1), of "catalogue ! i"] show ?thesis
    by (auto simp add: patches_nth[OF i] counts_success_def)
qed

theorem rule_result_witness:
  "fst (snd (patches ! 0) example_self empty_tree) = Inr False \<and>
   fst (snd (patches ! 0) example_self mixed_tree) = Inr True \<and>
   (\<exists>e. fst (snd (patches ! 0) example_self denied_tree) = Inl e)"
proof -
  have l0: "(0::nat) < length patches" by (simp add: patches_length)
  from rule_result[OF log_ok_empty_tree l0] rule_result[OF mixed_tree_log_ok l0]
    rule_result[OF denied_tree_simps(1) l0]
  show ?thesis
    by (simp add: catalogue_nth empty_tree_outcomes mixed_tree_outcomes denied_tree_simps)
qed

theorem file_missing_counterexample:
  "outcome_of string_cc_rule example_self empty_tree = FileMissing \<and>
   fst (patch_string_cc example_self empty_tree) = Inr False"
proof -
  from exec_of_result[OF log_ok_empty_tree, of string_cc_rule]
  have "fst (exec_of string_cc_rule example_self empty_tree) = Inr False"
    by (auto simp add: empty_tree_outcomes counts_success_def)
  then show ?thesis
    by (simp add: empty_tree_outcomes exec_of_def rule_fields patch_string_cc_exec)
qed

section \<open>The frame of a rule function\<close>




section \<open>Deleting the assertion\<close>

text \<open>
  C6 at a failing input.  The file is three lines: \<^verbatim>\<open>#endif  // DEBUG\<close>, the
  assertion, and \<^verbatim>\<open>}\<close>.  The rule reports success and writes a file whose first
  line is \<^verbatim>\<open>#endif  // DEBUG}\<close>: the match took the newline that ended the line
  before the statement and the one after it, and the empty replacement joined the two
  neighbouring lines, which are not preserved.
\<close>

theorem deserializer_joins_lines:
  "entries debug_tree deserializer_cc_file =
     File (cps ''#endif  // DEBUG'' @ [10] @
           cps ''  CHECK_EQ(magic_number_, SerializedData::kMagicNumber);'' @ [10] @
           cps ''}'' @ [10]) \<and>
   fst (patch_deserializer_cc example_self debug_tree) = Inr True \<and>
   entries (snd (patch_deserializer_cc example_self debug_tree)) deserializer_cc_file =
     File (cps ''#endif  // DEBUG}'' @ [10])"
proof -
  have lt: "target deserializer_cc_rule example_self \<noteq> log_file example_self"
    by (simp add: example_targets example_files_distinct)
  have fc: "entries debug_tree (target deserializer_cc_rule example_self) = File debug_text"
    by (simp add: example_targets debug_tree_facts)
  have e: "exec_of deserializer_cc_rule = patch_deserializer_cc"
    by (simp add: exec_of_def rule_fields patch_deserializer_cc_exec)
  from exec_of_applied[OF debug_tree_facts(1) debug_tree_outcome lt fc]
  show ?thesis
    by (simp add: e example_targets rule_fields debug_text_sub debug_tree_facts(2))
       (simp add: debug_text_def)
qed

section \<open>Applying a rule again\<close>





section \<open>Removing the guard block\<close>




section \<open>Replacing the body of SanityCheck\<close>




end
